theory Spec2Isabelle
  imports Main
begin

section \<open>Values and strings of the JavaScript runtime\<close>

text \<open>
  A JavaScript string is a list of code units. The development covers code units below
  256, held in a \<^typ>\<open>char\<close>. White space is the one of ECMAScript in that range. Case
  conversion is the one of ECMAScript on that range: it exchanges \<open>a\<close> to \<open>z\<close> with \<open>A\<close> to
  \<open>Z\<close> and the accented letters \<^verbatim>\<open>\u00E0-\u00FE\<close> (without the division sign
  \<^verbatim>\<open>\u00F7\<close>) with \<^verbatim>\<open>\u00C0-\u00DE\<close> (without the multiplication sign
  \<^verbatim>\<open>\u00D7\<close>), and \<^verbatim>\<open>toUpperCase\<close> turns the sharp s \<^verbatim>\<open>\u00DF\<close> into \<open>SS\<close>. The
  upper case of the micro sign \<^verbatim>\<open>\u00B5\<close> and of \<^verbatim>\<open>\u00FF\<close> lies outside the range
  (\<^verbatim>\<open>\u039C\<close> and \<^verbatim>\<open>\u0178\<close>); the two code units stand for their own upper case,
  which no other text of the range produces, so that two texts of the range have the same
  upper case here exactly when they have the same upper case in the engine.

  A field of a request body is absent (\<^verbatim>\<open>undefined\<close>, the map gives \<open>None\<close>) or
  holds a JSON value. A number is integer valued and below \<open>10^21\<close> in magnitude, where
  its string conversion is its decimal numeral. An array or an object is given by what
  converting it to a string yields: \<open>JComp (Some s)\<close>, or \<open>JComp None\<close> when the
  conversion throws. \<open>JNaN\<close> never arrives in a body; \<^verbatim>\<open>parseInt\<close> produces it.
\<close>

datatype jsval = JNull | JBool bool | JNum int | JNaN | JStr string | JComp "string option"

type_synonym body = "string \<rightharpoonup> jsval"

datatype js_error = TypeError

definition isWhiteSpace :: "char \<Rightarrow> bool" where
  \<comment> \<open>white space and line terminators of ECMAScript among the code units below 256:
      tab, line feed, vertical tab, form feed, carriage return, space, no-break space\<close>
  "isWhiteSpace c =
     (c \<in> set [CHR 0x09, CHR 0x0A, CHR 0x0B, CHR 0x0C, CHR 0x0D, CHR 0x20, CHR 0xA0])"

definition trim :: "string \<Rightarrow> string" where
  "trim s = rev (dropWhile isWhiteSpace (rev (dropWhile isWhiteSpace s)))"

fun truthy :: "jsval option \<Rightarrow> bool" where
  "truthy None = False"
| "truthy (Some JNull) = False"
| "truthy (Some (JBool b)) = b"
| "truthy (Some (JNum n)) = (n \<noteq> 0)"
| "truthy (Some JNaN) = False"
| "truthy (Some (JStr s)) = (s \<noteq> [])"
| "truthy (Some (JComp _)) = True"

subsection \<open>Decimal numerals and \<^verbatim>\<open>parseInt\<close>\<close>

definition digit_char :: "nat \<Rightarrow> char" where
  \<comment> \<open>the numeral of a digit \<open>d < 10\<close>\<close>
  "digit_char d = ''0123456789'' ! d"

fun show_nat_fuel :: "nat \<Rightarrow> nat \<Rightarrow> string" where
  "show_nat_fuel 0 n = []"
| "show_nat_fuel (Suc k) n =
     (if n < 10 then [digit_char n] else show_nat_fuel k (n div 10) @ [digit_char (n mod 10)])"

definition show_nat :: "nat \<Rightarrow> string" where
  \<comment> \<open>\<open>n\<close> has at most \<open>n + 1\<close> digits, so the fuel never runs out\<close>
  "show_nat n = show_nat_fuel (Suc n) n"

definition show_int :: "int \<Rightarrow> string" where
  "show_int i = (if i < 0 then CHR ''-'' # show_nat (nat (- i)) else show_nat (nat i))"

definition isDigit :: "char \<Rightarrow> bool" where
  \<comment> \<open>the class \<^verbatim>\<open>\d\<close>\<close>
  "isDigit c = (c \<in> set ''0123456789'')"

definition dec_value :: "char \<Rightarrow> nat option" where
  "dec_value c = map_of (zip ''0123456789'' [0, 1, 2, 3, 4, 5, 6, 7, 8, 9]) c"

definition hex_value :: "char \<Rightarrow> nat option" where
  "hex_value c =
     map_of (zip ''0123456789abcdefABCDEF''
               [0, 1, 2, 3, 4, 5, 6, 7, 8, 9, 10, 11, 12, 13, 14, 15, 10, 11, 12, 13, 14, 15]) c"

fun radix_prefix :: "(char \<Rightarrow> nat option) \<Rightarrow> string \<Rightarrow> nat list" where
  \<comment> \<open>the values of the longest prefix of digits of the radix\<close>
  "radix_prefix dv [] = []"
| "radix_prefix dv (c # cs) = (case dv c of None \<Rightarrow> [] | Some d \<Rightarrow> d # radix_prefix dv cs)"

definition radix_number :: "nat \<Rightarrow> nat list \<Rightarrow> nat" where
  "radix_number r ds = foldl (\<lambda>acc d. acc * r + d) 0 ds"

definition parseIntStr :: "string \<Rightarrow> jsval" where
  \<comment> \<open>\<^verbatim>\<open>parseInt(s)\<close> with no radix: leading white space, a sign, a \<^verbatim>\<open>0x\<close> prefix,
      then the longest prefix of digits; \<open>NaN\<close> when that prefix is empty. The value is
      the exact integer, which is the engine's number up to \<open>2^53\<close>; beyond, the engine
      rounds to the nearest double\<close>
  "parseIntStr s =
     (let s1 = dropWhile isWhiteSpace s;
          neg = (s1 \<noteq> [] \<and> hd s1 = CHR ''-'');
          s2 = (if s1 \<noteq> [] \<and> (hd s1 = CHR ''-'' \<or> hd s1 = CHR ''+'') then tl s1 else s1);
          hex = (take 2 s2 = ''0x'' \<or> take 2 s2 = ''0X'');
          ds = (if hex then radix_prefix hex_value (drop 2 s2) else radix_prefix dec_value s2);
          v = int (radix_number (if hex then 16 else 10) ds)
      in if ds = [] then JNaN else JNum (if neg then - v else v))"

fun toString :: "jsval option \<Rightarrow> js_error + string" where
  "toString None = Inr ''undefined''"
| "toString (Some JNull) = Inr ''null''"
| "toString (Some (JBool b)) = Inr (if b then ''true'' else ''false'')"
| "toString (Some (JNum n)) = Inr (show_int n)"
| "toString (Some JNaN) = Inr ''NaN''"
| "toString (Some (JStr s)) = Inr s"
| "toString (Some (JComp None)) = Inl TypeError"
| "toString (Some (JComp (Some s))) = Inr s"

definition parseInt :: "jsval option \<Rightarrow> js_error + jsval" where
  "parseInt v = (case toString v of Inl e \<Rightarrow> Inl e | Inr s \<Rightarrow> Inr (parseIntStr s))"

section \<open>Validation and sanitization of certificate data (backend)\<close>

definition VALID_TRAINING_TYPES :: "string list" where
  "VALID_TRAINING_TYPES =
     [''Basic Life Support Training'',
      ''Basic Life Support and Standard First Aid Training'',
      ''Basic Life Support Training of trainers'',
      ''Standard First Aid Training of trainers'']"

definition VALID_PARTICIPANT_TYPES :: "string list" where
  "VALID_PARTICIPANT_TYPES = [''Lay Rescuer'', ''Healthcare Provider'']"

fun includes_val :: "string list \<Rightarrow> jsval option \<Rightarrow> bool" where
  \<comment> \<open>\<^verbatim>\<open>Array.prototype.includes\<close> on an array of strings: only an equal string is found\<close>
  "includes_val xs (Some (JStr s)) = (s \<in> set xs)"
| "includes_val xs _ = False"

fun join :: "string \<Rightarrow> string list \<Rightarrow> string" where
  "join sep [] = []"
| "join sep [x] = x"
| "join sep (x # y # ys) = x @ sep @ join sep (y # ys)"

fun method_trim :: "jsval option \<Rightarrow> js_error + string" where
  \<comment> \<open>\<^verbatim>\<open>v.trim()\<close> on a value that is neither \<^verbatim>\<open>undefined\<close> nor \<^verbatim>\<open>null\<close>:
      only a string has the method\<close>
  "method_trim (Some (JStr s)) = Inr (trim s)"
| "method_trim _ = Inl TypeError"

record validation =
  valid :: bool
  errors :: "string list"

definition name_errors :: "body \<Rightarrow> js_error + string list" where
  "name_errors d =
     (if \<not> truthy (d ''participant_name'') then Inr [''participant_name is required'']
      else case method_trim (d ''participant_name'') of
             Inl e \<Rightarrow> Inl e
           | Inr t \<Rightarrow> Inr (if t = [] then [''participant_name is required''] else []))"

definition training_type_errors :: "body \<Rightarrow> string list" where
  "training_type_errors d =
     (if truthy (d ''training_type'') \<and> \<not> includes_val VALID_TRAINING_TYPES (d ''training_type'')
      then [''training_type must be one of: '' @ join '', '' VALID_TRAINING_TYPES]
      else [])"

definition participant_type_errors :: "body \<Rightarrow> string list" where
  "participant_type_errors d =
     (if truthy (d ''participant_type'')
         \<and> \<not> includes_val VALID_PARTICIPANT_TYPES (d ''participant_type'')
      then [''participant_type must be one of: '' @ join '', '' VALID_PARTICIPANT_TYPES]
      else [])"

definition age_out_of_range :: "jsval \<Rightarrow> bool" where
  \<comment> \<open>\<^verbatim>\<open>isNaN(ageNum) || ageNum < 0 || ageNum > 120\<close>\<close>
  "age_out_of_range v = (case v of JNum n \<Rightarrow> n < 0 \<or> 120 < n | _ \<Rightarrow> True)"

definition age_errors :: "body \<Rightarrow> js_error + string list" where
  "age_errors d =
     (if d ''age'' \<noteq> None \<and> d ''age'' \<noteq> Some JNull \<and> d ''age'' \<noteq> Some (JStr [])
      then case parseInt (d ''age'') of
             Inl e \<Rightarrow> Inl e
           | Inr ageNum \<Rightarrow>
               Inr (if age_out_of_range ageNum
                    then [''age must be a valid number between 0 and 120''] else [])
      else Inr [])"

definition validateCertificateData :: "body \<Rightarrow> js_error + validation" where
  \<comment> \<open>the four checks in their order; a throw leaves the function\<close>
  "validateCertificateData d =
     (case name_errors d of
        Inl e \<Rightarrow> Inl e
      | Inr e1 \<Rightarrow>
          (let e2 = training_type_errors d; e3 = participant_type_errors d
           in case age_errors d of
                Inl e \<Rightarrow> Inl e
              | Inr e4 \<Rightarrow>
                  (let errors = e1 @ e2 @ e3 @ e4
                   in Inr \<lparr>valid = (length errors = 0), errors = errors\<rparr>)))"

definition trim_or_null :: "jsval option \<Rightarrow> js_error + jsval" where
  \<comment> \<open>\<^verbatim>\<open>v?.trim() || null\<close>\<close>
  "trim_or_null v =
     (case v of
        None \<Rightarrow> Inr JNull
      | Some JNull \<Rightarrow> Inr JNull
      | _ \<Rightarrow> (case method_trim v of
                Inl e \<Rightarrow> Inl e
              | Inr t \<Rightarrow> Inr (if t \<noteq> [] then JStr t else JNull)))"

definition age_or_null :: "jsval option \<Rightarrow> js_error + jsval" where
  \<comment> \<open>\<^verbatim>\<open>data.age ? parseInt(data.age) : null\<close>\<close>
  "age_or_null v = (if truthy v then parseInt v else Inr JNull)"

fun build_object :: "(string \<times> (js_error + jsval)) list \<Rightarrow> js_error + (string \<times> jsval) list" where
  \<comment> \<open>an object literal: the property values are evaluated in order, the first throw wins\<close>
  "build_object [] = Inr []"
| "build_object ((k, r) # rest) =
     (case r of
        Inl e \<Rightarrow> Inl e
      | Inr v \<Rightarrow> (case build_object rest of Inl e \<Rightarrow> Inl e | Inr kvs \<Rightarrow> Inr ((k, v) # kvs)))"

definition sanitizeCertificateData :: "body \<Rightarrow> js_error + (string \<times> jsval) list" where
  "sanitizeCertificateData d =
     build_object
       [(''participant_name'', trim_or_null (d ''participant_name'')),
        (''training_type'', trim_or_null (d ''training_type'')),
        (''training_date'', trim_or_null (d ''training_date'')),
        (''venue'', trim_or_null (d ''venue'')),
        (''facility'', trim_or_null (d ''facility'')),
        (''participant_type'', trim_or_null (d ''participant_type'')),
        (''age'', age_or_null (d ''age'')),
        (''position'', trim_or_null (d ''position''))]"

subsection \<open>Notions used to state the properties of sanitization\<close>

definition trimmed :: "string \<Rightarrow> bool" where
  \<comment> \<open>no leading and no trailing white space\<close>
  "trimmed s = (s = [] \<or> (\<not> isWhiteSpace (hd s) \<and> \<not> isWhiteSpace (last s)))"

definition allowed_fields :: "string list" where
  "allowed_fields =
     [''participant_name'', ''training_type'', ''training_date'', ''venue'', ''facility'',
      ''participant_type'', ''age'', ''position'']"

definition string_fields :: "string list" where
  "string_fields =
     [''participant_name'', ''training_type'', ''training_date'', ''venue'', ''facility'',
      ''participant_type'', ''position'']"

definition sample_body :: body where
  "sample_body =
     [''participant_name'' \<mapsto> JStr '' Ana Cruz '',
      ''training_type'' \<mapsto> JStr ''Basic Life Support Training'',
      ''participant_type'' \<mapsto> JStr [],
      ''venue'' \<mapsto> JStr ''   '',
      ''age'' \<mapsto> JStr ''30'',
      ''role'' \<mapsto> JStr ''admin'']"

definition sample_sanitized :: "(string \<times> jsval) list" where
  "sample_sanitized =
     [(''participant_name'', JStr ''Ana Cruz''),
      (''training_type'', JStr ''Basic Life Support Training''),
      (''training_date'', JNull), (''venue'', JNull), (''facility'', JNull),
      (''participant_type'', JNull), (''age'', JNum 30), (''position'', JNull)]"

definition age_zero_body :: body where
  \<comment> \<open>the JSON body \<^verbatim>\<open>{"participant_name": "Ana Cruz", "age": 0}\<close>\<close>
  "age_zero_body = [''participant_name'' \<mapsto> JStr ''Ana Cruz'', ''age'' \<mapsto> JNum 0]"

section \<open>Certificate page (frontend)\<close>

subsection \<open>Case conversion\<close>

definition lower_letters :: string where
  "lower_letters = ''abcdefghijklmnopqrstuvwxyz''"

definition upper_letters :: string where
  "upper_letters = ''ABCDEFGHIJKLMNOPQRSTUVWXYZ''"

definition latin_lower :: string where
  \<comment> \<open>the lower-case letters \<^verbatim>\<open>\u00E0-\u00F6\<close> and \<^verbatim>\<open>\u00F8-\u00FE\<close>\<close>
  "latin_lower =
     [CHR 0xE0, CHR 0xE1, CHR 0xE2, CHR 0xE3, CHR 0xE4, CHR 0xE5, CHR 0xE6, CHR 0xE7,
      CHR 0xE8, CHR 0xE9, CHR 0xEA, CHR 0xEB, CHR 0xEC, CHR 0xED, CHR 0xEE, CHR 0xEF,
      CHR 0xF0, CHR 0xF1, CHR 0xF2, CHR 0xF3, CHR 0xF4, CHR 0xF5, CHR 0xF6,
      CHR 0xF8, CHR 0xF9, CHR 0xFA, CHR 0xFB, CHR 0xFC, CHR 0xFD, CHR 0xFE]"

definition latin_upper :: string where
  \<comment> \<open>their capitals \<^verbatim>\<open>\u00C0-\u00D6\<close> and \<^verbatim>\<open>\u00D8-\u00DE\<close>, in the same order\<close>
  "latin_upper =
     [CHR 0xC0, CHR 0xC1, CHR 0xC2, CHR 0xC3, CHR 0xC4, CHR 0xC5, CHR 0xC6, CHR 0xC7,
      CHR 0xC8, CHR 0xC9, CHR 0xCA, CHR 0xCB, CHR 0xCC, CHR 0xCD, CHR 0xCE, CHR 0xCF,
      CHR 0xD0, CHR 0xD1, CHR 0xD2, CHR 0xD3, CHR 0xD4, CHR 0xD5, CHR 0xD6,
      CHR 0xD8, CHR 0xD9, CHR 0xDA, CHR 0xDB, CHR 0xDC, CHR 0xDD, CHR 0xDE]"

definition toUpper :: "char \<Rightarrow> char" where
  \<comment> \<open>the capital of a lower-case letter, any other code unit unchanged; a pattern with
      the flag \<^verbatim>\<open>i\<close> compares two code units by their images\<close>
  "toUpper c =
     (case map_of (zip (lower_letters @ latin_lower) (upper_letters @ latin_upper)) c of
        Some u \<Rightarrow> u
      | None \<Rightarrow> c)"

definition toLower :: "char \<Rightarrow> char" where
  "toLower c =
     (case map_of (zip (upper_letters @ latin_upper) (lower_letters @ latin_lower)) c of
        Some l \<Rightarrow> l
      | None \<Rightarrow> c)"

definition upper_of :: "char \<Rightarrow> string" where
  \<comment> \<open>the upper case of one code unit of a string: the sharp s gives two code units\<close>
  "upper_of c = (if c = CHR 0xDF then ''SS'' else [toUpper c])"

definition toUpperCase :: "string \<Rightarrow> string" where
  "toUpperCase s = concat (map upper_of s)"

definition toLowerCase :: "string \<Rightarrow> string" where
  "toLowerCase s = map toLower s"

subsection \<open>Records as the API returns them\<close>

text \<open>
  A certificate as the frontend holds it: a row of the certificates table, of which the
  fields below are the ones the modelled code reads. A column that is \<open>null\<close> or a
  property that the row lacks is \<open>None\<close>. The page also reads \<^verbatim>\<open>_id\<close> and
  \<^verbatim>\<open>training_date_range\<close>, ahead of \<^verbatim>\<open>id\<close> and \<^verbatim>\<open>training_date\<close>.
\<close>

record cert =
  cert_id :: "int option"
  underscore_id :: "string option"
  participant_name :: "string option"
  training_type :: "string option"
  training_date :: "string option"
  training_date_range :: "string option"
  venue :: "string option"
  facility :: "string option"
  participant_type :: "string option"

definition or_else :: "string option \<Rightarrow> string \<Rightarrow> string" where
  \<comment> \<open>\<^verbatim>\<open>v || d\<close> for a string or \<^verbatim>\<open>null\<close>/\<^verbatim>\<open>undefined\<close> \<open>v\<close>: the empty string is falsy\<close>
  "or_else v d = (case v of None \<Rightarrow> d | Some s \<Rightarrow> if s = [] then d else s)"

subsection \<open>Acronyms\<close>

definition object_prototype_keys :: "string list" where
  \<comment> \<open>the property names every object literal inherits from \<^verbatim>\<open>Object.prototype\<close>\<close>
  "object_prototype_keys =
     [''constructor'', ''__proto__'', ''hasOwnProperty'', ''isPrototypeOf'',
      ''propertyIsEnumerable'', ''toLocaleString'', ''toString'', ''valueOf'',
      ''__defineGetter__'', ''__defineSetter__'', ''__lookupGetter__'', ''__lookupSetter__'']"

definition lookup_or :: "(string \<times> string) list \<Rightarrow> string \<Rightarrow> string \<Rightarrow> string option" where
  \<comment> \<open>\<^verbatim>\<open>mapping[text] || fallback\<close> on an object literal with non-empty string values. For
      an inherited property name the lookup yields a built-in function or object, which
      is truthy and whose rendering as text is the engine's: the result is \<open>None\<close>.\<close>
  "lookup_or mapping text fallback =
     (case map_of mapping text of
        Some a \<Rightarrow> Some a
      | None \<Rightarrow> if text \<in> set object_prototype_keys then None else Some fallback)"

definition training_mapping :: "(string \<times> string) list" where
  "training_mapping =
     [(''Basic Life Support Training'', ''BLS''),
      (''Basic Life Support and Standard First Aid Training'', ''BLS-SFA''),
      (''Basic Life Support Training of trainers'', ''BLS-TOT''),
      (''Standard First Aid Training of trainers'', ''SFA-TOT'')]"

definition participant_mapping :: "(string \<times> string) list" where
  "participant_mapping = [(''Lay Rescuer'', ''LR''), (''Healthcare Provider'', ''HCP'')]"

definition getTrainingAcronym :: "string \<Rightarrow> string option" where
  "getTrainingAcronym text = lookup_or training_mapping text ''TRNG''"

definition getParticipantAcronym :: "string \<Rightarrow> string option" where
  "getParticipantAcronym text = lookup_or participant_mapping text ''PART''"

subsection \<open>Date components\<close>

fun match_year :: "string \<Rightarrow> string option" where
  \<comment> \<open>the first match of \<^verbatim>\<open>/\d{4}/\<close>\<close>
  "match_year (a # b # c # d # rest) =
     (if isDigit a \<and> isDigit b \<and> isDigit c \<and> isDigit d then Some [a, b, c, d]
      else match_year (b # c # d # rest))"
| "match_year _ = None"

definition month_names :: "string list" where
  "month_names =
     [''January'', ''February'', ''March'', ''April'', ''May'', ''June'', ''July'', ''August'',
      ''September'', ''October'', ''November'', ''December'']"

fun ci_prefix :: "string \<Rightarrow> string \<Rightarrow> bool" where
  \<comment> \<open>the literal matches at the start of the string, ignoring case\<close>
  "ci_prefix [] s = True"
| "ci_prefix (p # ps) [] = False"
| "ci_prefix (p # ps) (c # cs) = (toUpper p = toUpper c \<and> ci_prefix ps cs)"

definition month_at :: "string \<Rightarrow> string option" where
  \<comment> \<open>the first alternative of the month pattern that matches at the start of the string\<close>
  "month_at s = find (\<lambda>m. ci_prefix m s) month_names"

fun month_scan :: "nat \<Rightarrow> string \<Rightarrow> string list" where
  \<comment> \<open>the matches of the global, case-insensitive month pattern, left to right; the
      first argument counts the characters of the last match still to be passed over\<close>
  "month_scan k [] = []"
| "month_scan (Suc k) (c # cs) = month_scan k cs"
| "month_scan 0 (c # cs) =
     (case month_at (c # cs) of
        None \<Rightarrow> month_scan 0 cs
      | Some m \<Rightarrow> take (length m) (c # cs) # month_scan (length m - 1) cs)"

definition monthMatch :: "string \<Rightarrow> string list" where
  "monthMatch s = month_scan 0 s"

function allNums :: "string \<Rightarrow> string list" where
  \<comment> \<open>the matches of \<^verbatim>\<open>/\d+/g\<close>: the maximal runs of digits\<close>
  "allNums [] = []"
| "allNums (c # cs) =
     (if isDigit c then (c # takeWhile isDigit cs) # allNums (dropWhile isDigit cs)
      else allNums cs)"
  by pat_completeness auto
termination
  by (relation "measure length") (auto simp: less_Suc_eq_le length_dropWhile_le)

definition Number :: "string \<Rightarrow> nat" where
  \<comment> \<open>the value of a run of digits\<close>
  "Number ds = radix_number 10 (radix_prefix dec_value ds)"

definition isWordChar :: "char \<Rightarrow> bool" where
  \<comment> \<open>the class \<^verbatim>\<open>[A-Za-z0-9\u00C0-\u00FF]\<close>\<close>
  "isWordChar c =
     (c \<in> set upper_letters \<or> c \<in> set lower_letters \<or> isDigit c \<or> 192 \<le> (of_char c :: nat))"

definition notSpaceHyphen :: "char \<Rightarrow> bool" where
  \<comment> \<open>the class \<^verbatim>\<open>[^\s-]\<close>\<close>
  "notSpaceHyphen c = (\<not> isWhiteSpace c \<and> c \<noteq> CHR ''-'')"

definition smallWords :: "string list" where
  "smallWords =
     [''a'', ''an'', ''and'', ''as'', ''at'', ''but'', ''by'', ''en'', ''for'', ''if'', ''in'', ''of'',
      ''on'', ''or'', ''the'', ''to'', ''v'', ''v.'', ''via'']"

definition capitalize :: "nat \<Rightarrow> nat \<Rightarrow> string \<Rightarrow> string" where
  \<comment> \<open>the replacement of one match found at \<open>index\<close> in a title of \<open>len\<close> characters\<close>
  "capitalize index len w =
     (if index > 0 \<and> index + length w \<noteq> len \<and> toLowerCase w \<in> set smallWords
      then toLowerCase w
      else toUpperCase (take 1 w) @ toLowerCase (drop 1 w))"

function title_scan :: "nat \<Rightarrow> nat \<Rightarrow> string \<Rightarrow> string" where
  \<comment> \<open>\<^verbatim>\<open>replace\<close> with the global pattern \<^verbatim>\<open>/[A-Za-z0-9\u00C0-\u00FF]+[^\s-]*/g\<close>: a match
      starts at a word character and runs up to the next white space or hyphen\<close>
  "title_scan index len [] = []"
| "title_scan index len (c # cs) =
     (if isWordChar c
      then capitalize index len (c # takeWhile notSpaceHyphen cs)
           @ title_scan (index + Suc (length (takeWhile notSpaceHyphen cs))) len
               (dropWhile notSpaceHyphen cs)
      else c # title_scan (Suc index) len cs)"
  by pat_completeness auto
termination
  by (relation "measure (\<lambda>(i, n, s). length s)") (auto simp: less_Suc_eq_le length_dropWhile_le)

definition toTitleCase :: "string \<Rightarrow> string" where
  "toTitleCase str = title_scan 0 (length str) str"

record date_components =
  year :: string
  month :: string
  day :: nat

definition parseFinalDateComponents :: "string option \<Rightarrow> date_components" where
  "parseFinalDateComponents dateString =
     (case dateString of
        None \<Rightarrow> \<lparr>year = ''2026'', month = [], day = 1\<rparr>
      | Some s \<Rightarrow>
          if s = [] then \<lparr>year = ''2026'', month = [], day = 1\<rparr>
          else
            let yr = (case match_year s of Some y \<Rightarrow> y | None \<Rightarrow> ''2026'');
                mm = monthMatch s;
                mo = (if mm \<noteq> [] then toTitleCase (last mm) else []);
                days = filter (\<lambda>n. n > 0 \<and> n \<le> 31 \<and> JNum (int n) \<noteq> parseIntStr yr)
                         (map Number (allNums s));
                dy = (if length days > 0 then last days else 1)
            in \<lparr>year = yr, month = mo, day = dy\<rparr>)"

subsection \<open>Certificate code\<close>

record page_props =
  cert :: "cert option"
  signerName :: "string option"
  signerPosition :: "string option"

definition opt_field :: "(cert \<Rightarrow> 'a option) \<Rightarrow> cert option \<Rightarrow> 'a option" where
  \<comment> \<open>\<^verbatim>\<open>cert?.field\<close>\<close>
  "opt_field f c = (case c of None \<Rightarrow> None | Some r \<Rightarrow> f r)"

definition certificateId :: "cert option \<Rightarrow> string" where
  \<comment> \<open>\<^verbatim>\<open>cert?._id || cert?.id || "000000"\<close>, as the template prints it; the number
      \<open>0\<close> is falsy\<close>
  "certificateId c =
     (let by_id = (case opt_field cert_id c of
                     None \<Rightarrow> ''000000''
                   | Some n \<Rightarrow> if n \<noteq> 0 then show_int n else ''000000'')
      in case opt_field underscore_id c of
           None \<Rightarrow> by_id
         | Some s \<Rightarrow> if s \<noteq> [] then s else by_id)"

definition dateString :: "cert option \<Rightarrow> string" where
  \<comment> \<open>\<^verbatim>\<open>cert?.training_date_range || cert?.training_date || ""\<close>\<close>
  "dateString c =
     or_else (opt_field training_date_range c) (or_else (opt_field training_date c) [])"

definition certificateCode :: "page_props \<Rightarrow> string option" where
  "certificateCode props =
     (let trainingType = or_else (opt_field training_type (cert props)) ''Training Program'';
          participantType = or_else (opt_field participant_type (cert props)) ''Lay Rescuer'';
          yr = year (parseFinalDateComponents (Some (dateString (cert props))))
      in case getTrainingAcronym trainingType of
           None \<Rightarrow> None
         | Some ta \<Rightarrow>
             (case getParticipantAcronym participantType of
                None \<Rightarrow> None
              | Some pa \<Rightarrow>
                  Some (''DOHCHD-1-'' @ ta @ ''-'' @ pa @ ''-'' @ yr @ ''-''
                        @ certificateId (cert props))))"

subsection \<open>The date components as the specification words them\<close>

definition positions :: "(string \<Rightarrow> bool) \<Rightarrow> string \<Rightarrow> nat list" where
  \<comment> \<open>the positions of the string, in increasing order, at which a text satisfying \<open>Q\<close> starts\<close>
  "positions Q s = filter (\<lambda>i. Q (drop i s)) [0..<length s]"

definition four_digits :: "string \<Rightarrow> bool" where
  "four_digits s = (length s \<ge> 4 \<and> list_all isDigit (take 4 s))"

definition spec_year :: "string \<Rightarrow> string" where
  \<comment> \<open>the first substring of four digits, \<open>2026\<close> when there is none\<close>
  "spec_year s = (case positions four_digits s of [] \<Rightarrow> ''2026'' | i # _ \<Rightarrow> take 4 (drop i s))"

definition spells :: "string \<Rightarrow> string \<Rightarrow> bool" where
  \<comment> \<open>the text starts with the word, letter case ignored\<close>
  "spells m t = (length m \<le> length t \<and> toUpperCase (take (length m) t) = toUpperCase m)"

definition month_here :: "string \<Rightarrow> bool" where
  "month_here t = (\<exists>m\<in>set month_names. spells m t)"

definition month_name_at :: "string \<Rightarrow> string" where
  "month_name_at t = (case find (\<lambda>m. spells m t) month_names of Some m \<Rightarrow> m | None \<Rightarrow> [])"

definition spec_month :: "string \<Rightarrow> string" where
  \<comment> \<open>the English month name spelled at the last position where one is spelled, empty
      when there is none\<close>
  "spec_month s =
     (case rev (positions month_here s) of [] \<Rightarrow> [] | i # _ \<Rightarrow> month_name_at (drop i s))"

definition run_starts :: "string \<Rightarrow> nat list" where
  \<comment> \<open>the positions at which a number starts: a digit that no digit precedes\<close>
  "run_starts s =
     filter (\<lambda>i. isDigit (s ! i) \<and> (i = 0 \<or> \<not> isDigit (s ! (i - 1)))) [0..<length s]"

definition spec_numbers :: "string \<Rightarrow> nat list" where
  \<comment> \<open>the numbers in the string, left to right\<close>
  "spec_numbers s = map (\<lambda>i. Number (takeWhile isDigit (drop i s))) (run_starts s)"

definition spec_day :: "string \<Rightarrow> nat" where
  \<comment> \<open>the last number that lies in \<open>1..31\<close> and differs from the parsed year, \<open>1\<close> when
      there is none\<close>
  "spec_day s =
     (case rev (filter (\<lambda>n. 1 \<le> n \<and> n \<le> 31 \<and> n \<noteq> Number (spec_year s)) (spec_numbers s)) of
        [] \<Rightarrow> 1
      | n # _ \<Rightarrow> n)"

definition spec_date_components :: "string option \<Rightarrow> date_components" where
  "spec_date_components ds =
     (case ds of
        None \<Rightarrow> \<lparr>year = ''2026'', month = [], day = 1\<rparr>
      | Some s \<Rightarrow> \<lparr>year = spec_year s, month = spec_month s, day = spec_day s\<rparr>)"

subsection \<open>Auxiliary notions of the proofs\<close>

definition starts_after :: "bool \<Rightarrow> string \<Rightarrow> nat list" where
  \<comment> \<open>\<open>run_starts\<close> for a string that follows a digit (\<open>prev\<close>) or not\<close>
  "starts_after prev s =
     filter (\<lambda>i. isDigit (s ! i) \<and> (if i = 0 then \<not> prev else \<not> isDigit (s ! (i - 1))))
       [0..<length s]"

definition overlap_free :: "string list \<Rightarrow> bool" where
  \<comment> \<open>no word of the list, read without case, continues into the start of a word of the list\<close>
  "overlap_free ws =
     list_all (\<lambda>m. list_all (\<lambda>m2. list_all (\<lambda>d.
        take (min (length m2) (length m - d)) (map toUpper m2)
          \<noteq> take (min (length m2) (length m - d)) (drop d (map toUpper m)))
        [1..<length m]) ws) ws"

definition title_shaped :: "string \<Rightarrow> bool" where
  \<comment> \<open>a non-empty word of letters, the first in upper case and the others in lower case\<close>
  "title_shaped m =
     (m \<noteq> [] \<and> toUpperCase (take 1 m) @ toLowerCase (drop 1 m) = m
      \<and> list_all (\<lambda>x. toUpper x \<in> set upper_letters) m)"

subsection \<open>The certificate code as the specification words it\<close>

definition spec_training_acronym :: "string option \<Rightarrow> string" where
  \<comment> \<open>the acronym of the lookup table, \<open>TRNG\<close> for a missing or unlisted type\<close>
  "spec_training_acronym t =
     (if t = Some ''Basic Life Support Training'' then ''BLS''
      else if t = Some ''Basic Life Support and Standard First Aid Training'' then ''BLS-SFA''
      else if t = Some ''Basic Life Support Training of trainers'' then ''BLS-TOT''
      else if t = Some ''Standard First Aid Training of trainers'' then ''SFA-TOT''
      else ''TRNG'')"

definition claimed_participant_acronym :: "string option \<Rightarrow> string" where
  \<comment> \<open>as claimed: the acronym of the lookup table, \<open>PART\<close> for a missing or unlisted type\<close>
  "claimed_participant_acronym p =
     (if p = Some ''Lay Rescuer'' then ''LR''
      else if p = Some ''Healthcare Provider'' then ''HCP''
      else ''PART'')"

definition spec_participant_acronym :: "string option \<Rightarrow> string" where
  \<comment> \<open>as amended: a missing or empty type counts as \<open>Lay Rescuer\<close>\<close>
  "spec_participant_acronym p =
     (if p = None \<or> p = Some [] \<or> p = Some ''Lay Rescuer'' then ''LR''
      else if p = Some ''Healthcare Provider'' then ''HCP''
      else ''PART'')"

definition spec_date :: "cert \<Rightarrow> string" where
  \<comment> \<open>the date string of a record: \<open>training_date_range\<close> when it has one, else
      \<open>training_date\<close>, else empty\<close>
  "spec_date r =
     (case training_date_range r of
        Some s \<Rightarrow> if s \<noteq> [] then s else (case training_date r of Some d \<Rightarrow> d | None \<Rightarrow> [])
      | None \<Rightarrow> (case training_date r of Some d \<Rightarrow> d | None \<Rightarrow> []))"

definition spec_id :: "cert \<Rightarrow> string" where
  \<comment> \<open>the record id as text: \<open>_id\<close> when the record has one, else the numeral of
      \<open>id\<close>, and \<open>000000\<close> when it has neither or the id is \<open>0\<close>\<close>
  "spec_id r =
     (if underscore_id r \<noteq> None \<and> underscore_id r \<noteq> Some [] then the (underscore_id r)
      else if cert_id r \<noteq> None \<and> cert_id r \<noteq> Some 0 then show_int (the (cert_id r))
      else ''000000'')"

definition claimed_code :: "cert \<Rightarrow> string" where
  "claimed_code r =
     join ''-'' [''DOHCHD-1'', spec_training_acronym (training_type r),
                claimed_participant_acronym (participant_type r), spec_year (spec_date r),
                spec_id r]"

definition spec_code :: "cert \<Rightarrow> string" where
  "spec_code r =
     join ''-'' [''DOHCHD-1'', spec_training_acronym (training_type r),
                spec_participant_acronym (participant_type r), spec_year (spec_date r),
                spec_id r]"

definition inherited_name :: "string option \<Rightarrow> bool" where
  \<comment> \<open>the type is the name of a property inherited from \<^verbatim>\<open>Object.prototype\<close>\<close>
  "inherited_name t = (case t of None \<Rightarrow> False | Some s \<Rightarrow> s \<in> set object_prototype_keys)"

definition sample_cert :: cert where
  \<comment> \<open>a stored record without participant type\<close>
  "sample_cert =
     \<lparr>cert_id = Some 7, underscore_id = None, participant_name = Some ''Ana Cruz'',
      training_type = Some ''Basic Life Support Training'',
      training_date = Some ''January 21-23, 2026'', training_date_range = None,
      venue = Some ''Vigan'', facility = None, participant_type = None\<rparr>"

definition sample_props :: page_props where
  "sample_props =
     \<lparr>cert = Some sample_cert, signerName = Some ''Juan Reyes'', signerPosition = None\<rparr>"

section \<open>Batch grouping and listing (frontend registry page)\<close>

subsection \<open>Grouping\<close>

definition includes_str :: "string \<Rightarrow> string \<Rightarrow> bool" where
  \<comment> \<open>\<^verbatim>\<open>s.includes(search)\<close>: the search string occurs in \<open>s\<close>\<close>
  "includes_str s search =
     list_ex (\<lambda>i. take (length search) (drop i s) = search) [0..<Suc (length s)]"

definition field_includes :: "string option \<Rightarrow> string \<Rightarrow> bool" where
  \<comment> \<open>\<^verbatim>\<open>field?.toLowerCase().includes(search)\<close>, \<^verbatim>\<open>undefined\<close> being falsy\<close>
  "field_includes f search =
     (case f of None \<Rightarrow> False | Some s \<Rightarrow> includes_str (toLowerCase s) search)"

definition matches_search :: "string \<Rightarrow> cert \<Rightarrow> bool" where
  "matches_search search c =
     (field_includes (participant_name c) search \<or> field_includes (training_date c) search
      \<or> field_includes (venue c) search \<or> field_includes (facility c) search)"

definition strip_ws :: "string \<Rightarrow> string" where
  \<comment> \<open>\<^verbatim>\<open>replace(/\s+/g, "")\<close>\<close>
  "strip_ws s = filter (\<lambda>c. \<not> isWhiteSpace c) s"

function collapse_ws :: "string \<Rightarrow> string" where
  \<comment> \<open>\<^verbatim>\<open>replace(/\s+/g, " ")\<close>\<close>
  "collapse_ws [] = []"
| "collapse_ws (c # cs) =
     (if isWhiteSpace c then CHR '' '' # collapse_ws (dropWhile isWhiteSpace cs)
      else c # collapse_ws cs)"
  by pat_completeness auto
termination
  by (relation "measure length") (auto simp: less_Suc_eq_le length_dropWhile_le)

definition dateKey :: "cert \<Rightarrow> string" where
  "dateKey c = strip_ws (toUpperCase (or_else (training_date c) ''NODATE''))"

definition typeKey :: "cert \<Rightarrow> string" where
  "typeKey c = strip_ws (toUpperCase (or_else (training_type c) ''UNSPECIFIED''))"

definition batchId :: "cert \<Rightarrow> string" where
  "batchId c = dateKey c @ ''_'' @ typeKey c"

record batch =
  displayDate :: string
  trainingType :: string
  certs :: "cert list"

text \<open>
  The object \<^verbatim>\<open>groups\<close> is a list of its entries in insertion order, which is the
  order of \<^verbatim>\<open>Object.entries\<close>: a batch id contains an underscore and so is never an
  array index, and it contains none of the letters \<open>a\<close> to \<open>z\<close> and so is never the name
  of an inherited property.
\<close>

type_synonym groups = "(string \<times> batch) list"

definition new_batch :: "cert \<Rightarrow> batch" where
  "new_batch c =
     \<lparr>displayDate = toUpperCase (collapse_ws (trim (or_else (training_date c) ''NO DATE''))),
      trainingType = toUpperCase (collapse_ws (trim (or_else (training_type c) ''UNSPECIFIED''))),
      certs = []\<rparr>"

definition push_cert :: "string \<Rightarrow> cert \<Rightarrow> groups \<Rightarrow> groups" where
  \<comment> \<open>\<^verbatim>\<open>groups[batchId].certs.push(cert)\<close>\<close>
  "push_cert k c g = map (\<lambda>(k', b). if k' = k then (k', b\<lparr>certs := certs b @ [c]\<rparr>) else (k', b)) g"

definition add_cert :: "groups \<Rightarrow> cert \<Rightarrow> groups" where
  \<comment> \<open>the body of the \<^verbatim>\<open>forEach\<close>\<close>
  "add_cert g c =
     (let g' = (if map_of g (batchId c) = None then g @ [(batchId c, new_batch c)] else g)
      in push_cert (batchId c) c g')"

definition filtered :: "cert list \<Rightarrow> string \<Rightarrow> cert list" where
  "filtered list searchTerm = filter (matches_search (toLowerCase searchTerm)) list"

definition filteredAndGroupedCerts :: "cert list \<Rightarrow> string \<Rightarrow> groups" where
  "filteredAndGroupedCerts list searchTerm = foldl add_cert [] (filtered list searchTerm)"

subsection \<open>Listing\<close>

text \<open>
  \<^verbatim>\<open>new Date(string)\<close> is the engine's: the parameter \<open>Date\<close> gives the time value
  of the date it constructs, in milliseconds since the epoch, and \<open>None\<close> for an
  \<^verbatim>\<open>Invalid Date\<close>, whose time value is \<open>NaN\<close>. The constructor does not throw, so the
  \<^verbatim>\<open>catch\<close> branch of \<^verbatim>\<open>getSortableDate\<close> is never taken.
\<close>

fun split_on :: "char \<Rightarrow> string \<Rightarrow> string list" where
  \<comment> \<open>\<^verbatim>\<open>s.split(sep)\<close> for a separator of one character\<close>
  "split_on sep [] = [[]]"
| "split_on sep (c # cs) =
     (if c = sep then [] # split_on sep cs
      else case split_on sep cs of p # ps \<Rightarrow> (c # p) # ps | [] \<Rightarrow> [[c]])"

definition getSortableDate :: "(string \<Rightarrow> int option) \<Rightarrow> string \<Rightarrow> int option" where
  "getSortableDate Date dateStr =
     (if dateStr = [] then Some 0
      else
        let parts = split_on CHR ''-'' dateStr
        in if length parts > 1
           then
             let monthDay = trim (hd parts);
                 yearPart = (case split_on CHR '','' dateStr of
                               _ # y # _ \<Rightarrow> if y \<noteq> [] then y else '' 2026''
                             | _ \<Rightarrow> '' 2026'')
             in Date (monthDay @ '','' @ yearPart)
           else Date dateStr)"

definition compare_batches ::
  "(string \<Rightarrow> int option) \<Rightarrow> string \<times> batch \<Rightarrow> string \<times> batch \<Rightarrow> int option" where
  \<comment> \<open>the comparator \<^verbatim>\<open>(b, a) => getSortableDate(a[1].displayDate) -
      getSortableDate(b[1].displayDate)\<close>; \<open>None\<close> is \<open>NaN\<close>\<close>
  "compare_batches Date b a =
     (case (getSortableDate Date (displayDate (snd a)),
            getSortableDate Date (displayDate (snd b))) of
        (Some ta, Some tb) \<Rightarrow> Some (ta - tb)
      | _ \<Rightarrow> None)"

fun insert_by :: "('a \<Rightarrow> 'a \<Rightarrow> int option) \<Rightarrow> 'a \<Rightarrow> 'a list \<Rightarrow> 'a list" where
  \<comment> \<open>\<open>x\<close> goes after \<open>y\<close> exactly when the comparator is positive on \<open>(x, y)\<close>; a
      \<open>NaN\<close> counts as \<open>0\<close>\<close>
  "insert_by cmp x [] = [x]"
| "insert_by cmp x (y # ys) =
     (if (case cmp x y of Some v \<Rightarrow> v > 0 | None \<Rightarrow> False) then y # insert_by cmp x ys
      else x # y # ys)"

definition sort_by :: "('a \<Rightarrow> 'a \<Rightarrow> int option) \<Rightarrow> 'a list \<Rightarrow> 'a list" where
  \<comment> \<open>\<^verbatim>\<open>Array.prototype.sort\<close> with a comparator: a stable sort, here by insertion.
      This is the order of every engine when the comparator orders the items
      consistently, and for two items also when it yields \<open>NaN\<close>; for more items and a
      comparator that yields \<open>NaN\<close> on some pairs the order is the engine's own\<close>
  "sort_by cmp xs = foldr (insert_by cmp) xs []"

definition sorted_batches :: "(string \<Rightarrow> int option) \<Rightarrow> groups \<Rightarrow> groups" where
  "sorted_batches Date g = sort_by (compare_batches Date) g"

definition paginatedBatches :: "(string \<Rightarrow> int option) \<Rightarrow> groups \<Rightarrow> nat \<Rightarrow> nat \<Rightarrow> groups" where
  \<comment> \<open>\<^verbatim>\<open>sorted.slice(start, end)\<close> for a page number \<open>currentPage \<ge> 1\<close>\<close>
  "paginatedBatches Date g currentPage itemsPerPage =
     (let start = (currentPage - 1) * itemsPerPage
      in take itemsPerPage (drop start (sorted_batches Date g)))"

subsection \<open>Notions used to state the properties of grouping and listing\<close>





definition mk_cert :: "int \<Rightarrow> string \<Rightarrow> string option \<Rightarrow> string option \<Rightarrow> cert" where
  \<comment> \<open>a stored record with the given id, name, training date and training type\<close>
  "mk_cert i n d t =
     \<lparr>cert_id = Some i, underscore_id = None, participant_name = Some n, training_type = t,
      training_date = d, training_date_range = None, venue = None, facility = None,
      participant_type = None\<rparr>"








definition cert_jan5 :: cert where
  "cert_jan5 = mk_cert 4 ''Dan Uy'' (Some ''January 5-9, 2026'') None"

definition cert_jan23 :: cert where
  "cert_jan23 = mk_cert 5 ''Eva Lim'' (Some ''January 23-27, 2026'') None"

definition cert_tba :: cert where
  "cert_tba = mk_cert 6 ''Flor Tan'' (Some ''TBA'') None"

definition sample_Date :: "string \<Rightarrow> int option" where
  \<comment> \<open>what \<^verbatim>\<open>new Date\<close> yields on the strings it is given below, in the time zone
      UTC: midnight of the day for the two dates, an invalid date for any other string\<close>
  "sample_Date s =
     (if s = ''JANUARY 5, 2026'' then Some 1767571200000
      else if s = ''JANUARY 23, 2026'' then Some 1769126400000
      else None)"

definition listing :: "(string \<Rightarrow> int option) \<Rightarrow> cert list \<Rightarrow> string list" where
  \<comment> \<open>the display dates of the first page of ten batches, all records shown\<close>
  "listing Date list =
     map (\<lambda>(k, b). displayDate b) (paginatedBatches Date (filteredAndGroupedCerts list []) 1 10)"

section \<open>Routes of the backend\<close>

subsection \<open>The database\<close>

text \<open>
  The two tables the routes write, and the transactions open on the connections of the
  pool. A row of \<^verbatim>\<open>certificates\<close> is its id and its eight columns (the timestamps are
  left out); a row of \<^verbatim>\<open>system_settings\<close> is a key and the value passed to the driver.
  Rows are visible to every reader as soon as they are in the tables. The single
  statements of the certificate routes are taken to succeed and to take effect at once.

  A transaction belongs to one connection: between \<^verbatim>\<open>BEGIN\<close> and \<^verbatim>\<open>COMMIT\<close> the
  connection's writes are held back, a failed statement aborts the transaction, and a
  statement on a connection without open transaction takes effect at once.
\<close>

record cert_row =
  row_id :: int
  columns :: "(string \<times> jsval) list"

datatype tx = Tx (writes: "(string \<times> jsval) list") (aborted: bool)

record store =
  certificates :: "cert_row list"
  next_id :: int
  system_settings :: "(string \<times> jsval) list"
  open_tx :: "nat \<rightharpoonup> tx"

datatype stmt = Begin | Upsert string jsval | Commit | Rollback

fun upsert :: "string \<Rightarrow> 'v \<Rightarrow> (string \<times> 'v) list \<Rightarrow> (string \<times> 'v) list" where
  \<comment> \<open>\<^verbatim>\<open>INSERT ... ON CONFLICT (setting_key) DO UPDATE\<close>\<close>
  "upsert k v [] = [(k, v)]"
| "upsert k v ((k', v') # rest) = (if k' = k then (k, v) # rest else (k', v') # upsert k v rest)"

definition apply_writes :: "(string \<times> jsval) list \<Rightarrow> (string \<times> jsval) list \<Rightarrow> (string \<times> jsval) list" where
  "apply_writes ws table = foldl (\<lambda>t (k, v). upsert k v t) table ws"

definition exec :: "nat \<Rightarrow> stmt \<Rightarrow> store \<Rightarrow> store" where
  \<comment> \<open>a statement that succeeds on connection \<open>c\<close>\<close>
  "exec c s st =
     (case s of
        Begin \<Rightarrow>
          (case open_tx st c of
             None \<Rightarrow> st\<lparr>open_tx := (open_tx st)(c \<mapsto> Tx [] False)\<rparr>
           | Some _ \<Rightarrow> st)
      | Upsert k v \<Rightarrow>
          (case open_tx st c of
             None \<Rightarrow> st\<lparr>system_settings := upsert k v (system_settings st)\<rparr>
           | Some t \<Rightarrow> st\<lparr>open_tx := (open_tx st)(c \<mapsto> Tx (writes t @ [(k, v)]) (aborted t))\<rparr>)
      | Commit \<Rightarrow>
          (case open_tx st c of
             None \<Rightarrow> st
           | Some t \<Rightarrow>
               st\<lparr>system_settings :=
                     (if aborted t then system_settings st
                      else apply_writes (writes t) (system_settings st)),
                   open_tx := (open_tx st)(c := None)\<rparr>)
      | Rollback \<Rightarrow> st\<lparr>open_tx := (open_tx st)(c := None)\<rparr>)"

definition fail_on :: "nat \<Rightarrow> store \<Rightarrow> store" where
  \<comment> \<open>a statement that fails on connection \<open>c\<close>: it has no effect of its own and aborts
      the transaction open there, if any\<close>
  "fail_on c st =
     (case open_tx st c of
        None \<Rightarrow> st
      | Some t \<Rightarrow> st\<lparr>open_tx := (open_tx st)(c \<mapsto> Tx (writes t) True)\<rparr>)"

text \<open>
  \<^verbatim>\<open>pool.query\<close> runs one statement on a connection that the pool picks for this call:
  an idle one, or a new one when the others are checked out by requests in flight. The
  picks and the failures are the environment of a request: \<open>conn_of i\<close> is the
  connection that serves the \<open>i\<close>-th query of the request, and \<open>fails i\<close> tells
  whether that query throws.
\<close>

record pg_env =
  conn_of :: "nat \<Rightarrow> nat"
  fails :: "nat \<Rightarrow> bool"

datatype db_error = QueryFailed

definition pool_query :: "pg_env \<Rightarrow> nat \<Rightarrow> stmt \<Rightarrow> store \<Rightarrow> (db_error + unit) \<times> store" where
  "pool_query env i s st =
     (if fails env i then (Inl QueryFailed, fail_on (conn_of env i) st)
      else (Inr (), exec (conn_of env i) s st))"

subsection \<open>Requests, responses and the session gate\<close>

record request =
  cookie_token :: "string option"
  req_body :: "(string \<times> jsval) list"
  user :: "int option"

datatype payload =
  Message string | Errors string "string list" | Row cert_row | User int
  | ErrorMessage js_error  \<comment> \<open>\<^verbatim>\<open>{ message: err.message }\<close> for the error caught\<close>

type_synonym response = "nat \<times> payload"

text \<open>
  Modelled from the spec: the middleware \<^verbatim>\<open>protect\<close> of \<^verbatim>\<open>middleware/auth.js\<close>, which
  is not among the sources. It validates the token of the identity cookie, and attaches
  the resolved identity to the request or rejects with the unauthorized status. The
  verification of the signed token is the parameter \<open>verify\<close>, which yields the user id
  of a valid token.
\<close>

definition protect :: "(string \<Rightarrow> int option) \<Rightarrow> request \<Rightarrow> response + request" where
  \<comment> \<open>Modelled from the spec: attach the identity or reject with 401\<close>
  "protect verify req =
     (case cookie_token req of
        None \<Rightarrow> Inl (401, Message ''Not authorized'')
      | Some t \<Rightarrow>
          (case verify t of
             None \<Rightarrow> Inl (401, Message ''Not authorized'')
           | Some uid \<Rightarrow> Inr (req\<lparr>user := Some uid\<rparr>)))"

subsection \<open>Certificate routes\<close>

definition sanitized_values :: "(string \<times> jsval) list \<Rightarrow> (string \<times> jsval) list" where
  \<comment> \<open>the eight parameters of the statement, in the order of its columns\<close>
  "sanitized_values sanitized =
     map (\<lambda>k. (k, case map_of sanitized k of Some v \<Rightarrow> v | None \<Rightarrow> JNull))
       [''participant_name'', ''training_type'', ''training_date'', ''venue'', ''facility'',
        ''participant_type'', ''age'', ''position'']"

definition post_certificates :: "request \<Rightarrow> store \<Rightarrow> response \<times> store" where
  "post_certificates req st =
     (case validateCertificateData (map_of (req_body req)) of
        Inl e \<Rightarrow> ((500, Message ''Failed to create certificate''), st)
      | Inr validation \<Rightarrow>
          if \<not> valid validation
          then ((400, Errors ''Validation failed'' (errors validation)), st)
          else
            (case sanitizeCertificateData (map_of (req_body req)) of
               Inl e \<Rightarrow> ((500, Message ''Failed to create certificate''), st)
             | Inr sanitized \<Rightarrow>
                 let newCert = \<lparr>row_id = next_id st, columns = sanitized_values sanitized\<rparr>
                 in ((201, Row newCert),
                     st\<lparr>certificates := certificates st @ [newCert],
                        next_id := next_id st + 1\<rparr>)))"

definition put_certificate :: "string \<Rightarrow> request \<Rightarrow> store \<Rightarrow> response \<times> store" where
  "put_certificate id_param req st =
     (case parseIntStr id_param of
        JNum certId \<Rightarrow>
          if filter (\<lambda>r. row_id r = certId) (certificates st) = []
          then ((404, Message ''Certificate not found''), st)
          else
            (case validateCertificateData (map_of (req_body req)) of
               Inl e \<Rightarrow> ((500, ErrorMessage e), st)
             | Inr validation \<Rightarrow>
                 if \<not> valid validation
                 then ((400, Errors ''Validation failed'' (errors validation)), st)
                 else
                   (case sanitizeCertificateData (map_of (req_body req)) of
                      Inl e \<Rightarrow> ((500, ErrorMessage e), st)
                    | Inr sanitized \<Rightarrow>
                        let updated = \<lparr>row_id = certId, columns = sanitized_values sanitized\<rparr>
                        in ((200, Row updated),
                            st\<lparr>certificates :=
                                  map (\<lambda>r. if row_id r = certId then updated else r)
                                    (certificates st)\<rparr>)))
      | _ \<Rightarrow> ((400, Message ''Invalid certificate ID''), st))"

definition delete_certificate :: "string \<Rightarrow> request \<Rightarrow> store \<Rightarrow> response \<times> store" where
  "delete_certificate id_param req st =
     (case parseIntStr id_param of
        JNum certId \<Rightarrow>
          if filter (\<lambda>r. row_id r = certId) (certificates st) = []
          then ((404, Message ''Certificate not found''), st)
          else ((200, Message ''Certificate deleted successfully''),
                st\<lparr>certificates := filter (\<lambda>r. row_id r \<noteq> certId) (certificates st)\<rparr>)
      | _ \<Rightarrow> ((400, Message ''Invalid certificate ID''), st))"

subsection \<open>Settings route\<close>

definition validKeys :: "string list" where
  "validKeys =
     [''off1_name'', ''off1_pos'', ''off1_sig'', ''off2_name'', ''off2_pos'', ''off3_name'',
      ''off3_pos'']"

definition value_or_empty :: "jsval \<Rightarrow> jsval" where
  \<comment> \<open>\<^verbatim>\<open>value || ""\<close>\<close>
  "value_or_empty v = (if truthy (Some v) then v else JStr [])"

fun upsert_loop ::
  "pg_env \<Rightarrow> nat \<Rightarrow> (string \<times> jsval) list \<Rightarrow> store \<Rightarrow> (db_error + unit) \<times> nat \<times> store" where
  \<comment> \<open>the \<^verbatim>\<open>for\<close> loop over the keys, from query number \<open>i\<close> on; it returns the number
      of the next query\<close>
  "upsert_loop env i [] st = (Inr (), i, st)"
| "upsert_loop env i ((key, v) # rest) st =
     (case pool_query env i (Upsert key (value_or_empty v)) st of
        (Inl e, st') \<Rightarrow> (Inl e, Suc i, st')
      | (Inr _, st') \<Rightarrow> upsert_loop env (Suc i) rest st')"

definition settings_transaction ::
  "pg_env \<Rightarrow> (string \<times> jsval) list \<Rightarrow> store \<Rightarrow> (db_error + unit) \<times> store" where
  \<comment> \<open>\<^verbatim>\<open>BEGIN\<close>, then the inner \<^verbatim>\<open>try\<close>: the loop and \<^verbatim>\<open>COMMIT\<close>, with \<^verbatim>\<open>ROLLBACK\<close>
      in its \<^verbatim>\<open>catch\<close> before the error is thrown on\<close>
  "settings_transaction env settings st =
     (case pool_query env 0 Begin st of
        (Inl e, st0) \<Rightarrow> (Inl e, st0)
      | (Inr _, st0) \<Rightarrow>
          (case upsert_loop env 1 settings st0 of
             (Inl e, i, st1) \<Rightarrow> (Inl e, snd (pool_query env i Rollback st1))
           | (Inr _, i, st1) \<Rightarrow>
               (case pool_query env i Commit st1 of
                  (Inl e, st2) \<Rightarrow> (Inl e, snd (pool_query env (Suc i) Rollback st2))
                | (Inr _, st2) \<Rightarrow> (Inr (), st2))))"

definition post_settings :: "pg_env \<Rightarrow> request \<Rightarrow> store \<Rightarrow> response \<times> store" where
  "post_settings env req st =
     (let settings = req_body req; keys = map fst settings
      in if length keys = 0 then ((400, Message ''No settings provided''), st)
         else
           let invalidKeys = filter (\<lambda>key. key \<notin> set validKeys) keys
           in if length invalidKeys > 0
              then ((400, Message (''Invalid setting keys: '' @ join '', '' invalidKeys)), st)
              else
                (case settings_transaction env settings st of
                   (Inl e, st') \<Rightarrow> ((500, Message ''Failed to update system settings''), st')
                 | (Inr _, st') \<Rightarrow> ((200, Message ''System settings updated successfully''), st')))"

subsection \<open>The router\<close>

datatype route =
    GetMe
  | PostCertificates
  | PutCertificate string
  | DeleteCertificate string
  | PostSettings

datatype middleware = Protect

fun middlewares :: "route \<Rightarrow> middleware list" where
  \<comment> \<open>the middlewares each route is declared with\<close>
  "middlewares GetMe = [Protect]"
| "middlewares PostCertificates = []"
| "middlewares (PutCertificate id_param) = []"
| "middlewares (DeleteCertificate id_param) = [Protect]"
| "middlewares PostSettings = [Protect]"

fun handler :: "pg_env \<Rightarrow> route \<Rightarrow> request \<Rightarrow> store \<Rightarrow> response \<times> store" where
  "handler env GetMe req st =
     ((200, case user req of Some uid \<Rightarrow> User uid | None \<Rightarrow> Message []), st)"
| "handler env PostCertificates req st = post_certificates req st"
| "handler env (PutCertificate id_param) req st = put_certificate id_param req st"
| "handler env (DeleteCertificate id_param) req st = delete_certificate id_param req st"
| "handler env PostSettings req st = post_settings env req st"

fun run_middlewares ::
  "(string \<Rightarrow> int option) \<Rightarrow> middleware list \<Rightarrow> request \<Rightarrow> response + request" where
  "run_middlewares verify [] req = Inr req"
| "run_middlewares verify (Protect # ms) req =
     (case protect verify req of Inl r \<Rightarrow> Inl r | Inr req' \<Rightarrow> run_middlewares verify ms req')"

definition serve ::
  "(string \<Rightarrow> int option) \<Rightarrow> pg_env \<Rightarrow> route \<Rightarrow> request \<Rightarrow> store \<Rightarrow> response \<times> store" where
  \<comment> \<open>a request to a route: its middlewares in order, then its handler\<close>
  "serve verify env r req st =
     (case run_middlewares verify (middlewares r) req of
        Inl resp \<Rightarrow> (resp, st)
      | Inr req' \<Rightarrow> handler env r req' st)"

fun mutating :: "route \<Rightarrow> bool" where
  \<comment> \<open>the routes that write stored records\<close>
  "mutating GetMe = False"
| "mutating PostCertificates = True"
| "mutating (PutCertificate id_param) = True"
| "mutating (DeleteCertificate id_param) = True"
| "mutating PostSettings = True"

definition valid_token :: "(string \<Rightarrow> int option) \<Rightarrow> request \<Rightarrow> bool" where
  "valid_token verify req =
     (case cookie_token req of None \<Rightarrow> False | Some t \<Rightarrow> verify t \<noteq> None)"

definition empty_store :: store where
  "empty_store = \<lparr>certificates = [], next_id = 1, system_settings = [], open_tx = Map.empty\<rparr>"

definition no_token_request :: request where
  \<comment> \<open>a request without identity cookie, with the body
      \<^verbatim>\<open>{"participant_name": "Ana Cruz"}\<close>\<close>
  "no_token_request =
     \<lparr>cookie_token = None, req_body = [(''participant_name'', JStr ''Ana Cruz'')],
      user = None\<rparr>"

definition one_connection :: pg_env where
  "one_connection = \<lparr>conn_of = (\<lambda>i. 0), fails = (\<lambda>i. False)\<rparr>"

definition no_verify :: "string \<Rightarrow> int option" where
  \<comment> \<open>a verification that accepts no token\<close>
  "no_verify t = None"

definition stored_row :: cert_row where
  "stored_row =
     \<lparr>row_id = 1,
      columns = sanitized_values [(''participant_name'', JStr ''Ben Ramos''), (''age'', JNum 41)]\<rparr>"

definition one_row_store :: store where
  "one_row_store = empty_store\<lparr>certificates := [stored_row], next_id := 2\<rparr>"

definition signatory_store :: store where
  \<comment> \<open>the first signatory as stored before the update\<close>
  "signatory_store =
     empty_store\<lparr>system_settings :=
                   [(''off1_name'', JStr ''Juan Reyes''), (''off1_pos'', JStr ''Director III'')]\<rparr>"

definition signatory_request :: request where
  \<comment> \<open>a request with an identity cookie that replaces name and position of the first
      signatory\<close>
  "signatory_request =
     \<lparr>cookie_token = Some ''token'',
      req_body = [(''off1_name'', JStr ''Maria Santos''), (''off1_pos'', JStr ''Director IV'')],
      user = None\<rparr>"

definition accept_all :: "string \<Rightarrow> int option" where
  \<comment> \<open>a verification that resolves every token to the user 1\<close>
  "accept_all t = Some 1"

definition two_connections :: pg_env where
  \<comment> \<open>\<^verbatim>\<open>BEGIN\<close> is served by connection 0 and the later queries by connection 1, as when
      another request holds connection 0 in between; the second upsert (query 2) fails\<close>
  "two_connections = \<lparr>conn_of = (\<lambda>i. if i = 0 then 0 else 1), fails = (\<lambda>i. i = 2)\<rparr>"

definition one_connection_failing :: pg_env where
  \<comment> \<open>every query is served by connection 0; the second upsert (query 2) fails\<close>
  "one_connection_failing = \<lparr>conn_of = (\<lambda>i. 0), fails = (\<lambda>i. i = 2)\<rparr>"

definition submitted :: "(string \<times> jsval) list \<Rightarrow> (string \<times> jsval) list" where
  \<comment> \<open>the rows a settings body asks to upsert\<close>
  "submitted kvs = map (\<lambda>(k, v). (k, value_or_empty v)) kvs"

section \<open>Properties of trimming\<close>

lemma last_dropWhile: "dropWhile P xs \<noteq> [] \<Longrightarrow> last (dropWhile P xs) = last xs"
  by (induction xs) (auto split: if_splits)

lemma trim_edges:
  assumes "trim s \<noteq> []"
  shows "\<not> isWhiteSpace (hd (trim s))" and "\<not> isWhiteSpace (last (trim s))"
proof -
  define a where "a = dropWhile isWhiteSpace s"
  define b where "b = dropWhile isWhiteSpace (rev a)"
  have t: "trim s = rev b" by (simp add: trim_def a_def b_def)
  with assms have b: "b \<noteq> []" by simp
  then have ra: "rev a \<noteq> []" by (auto simp: b_def)
  then have a: "a \<noteq> []" by simp
  have "\<not> isWhiteSpace (hd b)" using b unfolding b_def by (rule hd_dropWhile)
  then show "\<not> isWhiteSpace (last (trim s))" using b by (simp add: t last_rev)
  have "last b = last (rev a)" using b unfolding b_def by (rule last_dropWhile)
  also have "\<dots> = hd a" using a by (simp add: last_rev)
  finally have "hd (trim s) = hd a" using b by (simp add: t hd_rev)
  moreover have "\<not> isWhiteSpace (hd a)" using a unfolding a_def by (rule hd_dropWhile)
  ultimately show "\<not> isWhiteSpace (hd (trim s))" by simp
qed

lemma trimmed_trim: "trimmed (trim s)"
  using trim_edges [of s] by (auto simp: trimmed_def)

lemma trim_all_ws: "\<forall>c\<in>set s. isWhiteSpace c \<Longrightarrow> trim s = []"
  by (auto simp: trim_def dest: set_dropWhileD)

lemma valid_training_trim: "t \<in> set VALID_TRAINING_TYPES \<Longrightarrow> trim t = t"
  by (auto simp: VALID_TRAINING_TYPES_def trim_def isWhiteSpace_def)

lemma valid_participant_trim: "t \<in> set VALID_PARTICIPANT_TYPES \<Longrightarrow> trim t = t"
  by (auto simp: VALID_PARTICIPANT_TYPES_def trim_def isWhiteSpace_def)

lemma valid_training_nonempty: "t \<in> set VALID_TRAINING_TYPES \<Longrightarrow> t \<noteq> []"
  by (auto simp: VALID_TRAINING_TYPES_def)

lemma valid_participant_nonempty: "t \<in> set VALID_PARTICIPANT_TYPES \<Longrightarrow> t \<noteq> []"
  by (auto simp: VALID_PARTICIPANT_TYPES_def)

section \<open>Properties of validation and sanitization\<close>

lemma trim_or_null_cases:
  assumes "trim_or_null v = Inr r"
  shows "r = JNull \<or> (\<exists>s. v = Some (JStr s) \<and> trim s \<noteq> [] \<and> r = JStr (trim s))"
  using assms
  by (cases v rule: truthy.cases) (auto simp: trim_or_null_def split: if_splits option.splits)

lemma trim_or_null_shape:
  assumes "trim_or_null v = Inr r"
  shows "r = JNull \<or> (\<exists>s. r = JStr s \<and> s \<noteq> [] \<and> trimmed s)"
  using trim_or_null_cases [OF assms] trimmed_trim by auto

lemma trim_or_null_blank:
  assumes "v = None \<or> v = Some JNull \<or> (\<exists>s. v = Some (JStr s) \<and> (\<forall>c\<in>set s. isWhiteSpace c))"
  shows "trim_or_null v = Inr JNull"
  using assms by (auto simp: trim_or_null_def trim_all_ws)

lemma sanitize_Inr:
  assumes "sanitizeCertificateData d = Inr out"
  shows "\<exists>v1 v2 v3 v4 v5 v6 v7 v8.
     trim_or_null (d ''participant_name'') = Inr v1 \<and>
     trim_or_null (d ''training_type'') = Inr v2 \<and>
     trim_or_null (d ''training_date'') = Inr v3 \<and>
     trim_or_null (d ''venue'') = Inr v4 \<and>
     trim_or_null (d ''facility'') = Inr v5 \<and>
     trim_or_null (d ''participant_type'') = Inr v6 \<and>
     age_or_null (d ''age'') = Inr v7 \<and>
     trim_or_null (d ''position'') = Inr v8 \<and>
     out = [(''participant_name'', v1), (''training_type'', v2), (''training_date'', v3),
            (''venue'', v4), (''facility'', v5), (''participant_type'', v6), (''age'', v7),
            (''position'', v8)]"
  using assms by (auto simp: sanitizeCertificateData_def split: sum.splits)

lemma validation_Inr:
  assumes "validateCertificateData d = Inr v" and "valid v"
  shows "name_errors d = Inr []" and "training_type_errors d = []"
    and "participant_type_errors d = []" and "age_errors d = Inr []"
  using assms
  by (auto simp: validateCertificateData_def Let_def split: sum.splits)

lemma name_errors_empty:
  assumes "name_errors d = Inr []"
  shows "\<exists>s. d ''participant_name'' = Some (JStr s) \<and> trim s \<noteq> []"
proof (cases "d ''participant_name''" rule: truthy.cases)
  case (6 s)
  with assms show ?thesis by (auto simp: name_errors_def split: if_splits)
qed (use assms in \<open>auto simp: name_errors_def split: if_splits\<close>)

lemma enum_field_sanitized:
  assumes "truthy v \<longrightarrow> includes_val xs v" and "\<forall>t\<in>set xs. trim t = t \<and> t \<noteq> []"
    and "trim_or_null v = Inr r"
  shows "r = JNull \<or> (\<exists>t\<in>set xs. r = JStr t)"
  using assms
  by (cases v rule: truthy.cases) (auto simp: trim_or_null_def trim_def split: if_splits)

lemma trim_or_null_returns:
  assumes "v = None \<or> v = Some JNull \<or> (\<exists>s. v = Some (JStr s))"
  shows "\<exists>r. trim_or_null v = Inr r"
  using assms by (auto simp: trim_or_null_def)

lemma age_or_null_returns:
  assumes "v \<noteq> Some (JComp None)"
  shows "\<exists>r. age_or_null v = Inr r"
  using assms
  by (cases v rule: toString.cases) (auto simp: age_or_null_def parseInt_def)

text \<open>
  Sanitization returns a record whenever the seven text fields of the body are absent,
  \<open>null\<close> or strings and the age has a string conversion.
\<close>

lemma sanitize_returns:
  assumes "\<forall>f\<in>set string_fields. d f = None \<or> d f = Some JNull \<or> (\<exists>s. d f = Some (JStr s))"
    and "d ''age'' \<noteq> Some (JComp None)"
  shows "\<exists>out. sanitizeCertificateData d = Inr out"
proof -
  have "\<exists>r. trim_or_null (d f) = Inr r" if "f \<in> set string_fields" for f
    using assms(1) that by (intro trim_or_null_returns) blast
  then obtain v1 v2 v3 v4 v5 v6 v8 where
    "trim_or_null (d ''participant_name'') = Inr v1"
    "trim_or_null (d ''training_type'') = Inr v2"
    "trim_or_null (d ''training_date'') = Inr v3"
    "trim_or_null (d ''venue'') = Inr v4"
    "trim_or_null (d ''facility'') = Inr v5"
    "trim_or_null (d ''participant_type'') = Inr v6"
    "trim_or_null (d ''position'') = Inr v8"
    unfolding string_fields_def by (simp only: list.set insert_iff) metis
  moreover from age_or_null_returns [OF assms(2)] obtain v7 where
    "age_or_null (d ''age'') = Inr v7" by blast
  ultimately show ?thesis by (simp add: sanitizeCertificateData_def)
qed

lemma sample_validates:
  "validateCertificateData sample_body = Inr \<lparr>valid = True, errors = []\<rparr>"
  by code_simp

lemma sample_sanitizes: "sanitizeCertificateData sample_body = Inr sample_sanitized"
  by code_simp

text \<open>
  Claim C4. Whenever a body passes validation and sanitization returns a record, the
  record's \<open>participant_name\<close> is a non-empty string, and \<open>training_type\<close> and
  \<open>participant_type\<close> are each \<open>null\<close> or one of the allowed values of the field.
\<close>

theorem sanitized_fields_valid:
  assumes "validateCertificateData d = Inr v" and "valid v"
    and "sanitizeCertificateData d = Inr out"
  shows "(\<exists>s. map_of out ''participant_name'' = Some (JStr s) \<and> s \<noteq> [])
       \<and> (map_of out ''training_type'' = Some JNull
            \<or> (\<exists>t\<in>set VALID_TRAINING_TYPES. map_of out ''training_type'' = Some (JStr t)))
       \<and> (map_of out ''participant_type'' = Some JNull
            \<or> (\<exists>t\<in>set VALID_PARTICIPANT_TYPES. map_of out ''participant_type'' = Some (JStr t)))"
proof -
  from sanitize_Inr [OF assms(3)] obtain v1 v2 v3 v4 v5 v6 v7 v8 where
    f1: "trim_or_null (d ''participant_name'') = Inr v1" and
    f2: "trim_or_null (d ''training_type'') = Inr v2" and
    f6: "trim_or_null (d ''participant_type'') = Inr v6" and
    out: "out = [(''participant_name'', v1), (''training_type'', v2), (''training_date'', v3),
            (''venue'', v4), (''facility'', v5), (''participant_type'', v6), (''age'', v7),
            (''position'', v8)]"
    by blast
  from validation_Inr [OF assms(1,2)] have n: "name_errors d = Inr []"
    and t: "training_type_errors d = []" and p: "participant_type_errors d = []" by auto
  from name_errors_empty [OF n] obtain s where
    s: "d ''participant_name'' = Some (JStr s)" "trim s \<noteq> []" by blast
  with f1 have v1: "v1 = JStr (trim s)" by (simp add: trim_or_null_def)
  from t have "truthy (d ''training_type'')
      \<longrightarrow> includes_val VALID_TRAINING_TYPES (d ''training_type'')"
    by (auto simp: training_type_errors_def split: if_splits)
  then have v2: "v2 = JNull \<or> (\<exists>t\<in>set VALID_TRAINING_TYPES. v2 = JStr t)"
    using f2 valid_training_trim valid_training_nonempty by (intro enum_field_sanitized) auto
  from p have "truthy (d ''participant_type'')
      \<longrightarrow> includes_val VALID_PARTICIPANT_TYPES (d ''participant_type'')"
    by (auto simp: participant_type_errors_def split: if_splits)
  then have v6: "v6 = JNull \<or> (\<exists>t\<in>set VALID_PARTICIPANT_TYPES. v6 = JStr t)"
    using f6 valid_participant_trim valid_participant_nonempty
    by (intro enum_field_sanitized) auto
  show ?thesis using v1 s(2) v2 v6 by (simp add: out)
qed

theorem sanitized_fields_valid_witness:
  "validateCertificateData sample_body = Inr \<lparr>valid = True, errors = []\<rparr>
   \<and> sanitizeCertificateData sample_body = Inr sample_sanitized
   \<and> map_of sample_sanitized ''participant_name'' = Some (JStr ''Ana Cruz'')
   \<and> (\<exists>t\<in>set VALID_TRAINING_TYPES. map_of sample_sanitized ''training_type'' = Some (JStr t))
   \<and> map_of sample_sanitized ''participant_type'' = Some JNull"
  using sanitized_fields_valid [OF sample_validates _ sample_sanitizes]
  by (simp add: sample_validates sample_sanitizes) (simp add: sample_sanitized_def)

text \<open>
  Claim C6. Whenever a body passes validation and sanitization returns a record, the
  record has exactly the eight allowed fields, so every other field of the body is
  dropped, and every string in the record has no leading and no trailing white space.
\<close>

theorem sanitize_allow_list:
  assumes "validateCertificateData d = Inr v" and "valid v"
    and "sanitizeCertificateData d = Inr out"
  shows "map fst out = allowed_fields
       \<and> (\<forall>(k, x)\<in>set out. \<forall>s. x = JStr s \<longrightarrow> trimmed s)"
proof -
  from sanitize_Inr [OF assms(3)] obtain v1 v2 v3 v4 v5 v6 v7 v8 where
    f: "trim_or_null (d ''participant_name'') = Inr v1"
       "trim_or_null (d ''training_type'') = Inr v2"
       "trim_or_null (d ''training_date'') = Inr v3"
       "trim_or_null (d ''venue'') = Inr v4"
       "trim_or_null (d ''facility'') = Inr v5"
       "trim_or_null (d ''participant_type'') = Inr v6"
       "trim_or_null (d ''position'') = Inr v8" and
    a: "age_or_null (d ''age'') = Inr v7" and
    out: "out = [(''participant_name'', v1), (''training_type'', v2), (''training_date'', v3),
            (''venue'', v4), (''facility'', v5), (''participant_type'', v6), (''age'', v7),
            (''position'', v8)]"
    by blast
  have "\<forall>s. v7 \<noteq> JStr s"
    using a
    by (auto simp: age_or_null_def parseInt_def parseIntStr_def Let_def
             split: if_splits sum.splits)
  then show ?thesis
    using f [THEN trim_or_null_shape] by (auto simp: out allowed_fields_def)
qed

theorem sanitize_allow_list_witness:
  "sample_body ''role'' = Some (JStr ''admin'')
   \<and> validateCertificateData sample_body = Inr \<lparr>valid = True, errors = []\<rparr>
   \<and> sanitizeCertificateData sample_body = Inr sample_sanitized
   \<and> map fst sample_sanitized = allowed_fields
   \<and> ''role'' \<notin> set (map fst sample_sanitized)
   \<and> trimmed ''Ana Cruz''"
proof -
  have r: "sample_body ''role'' = Some (JStr ''admin'')" by (simp add: sample_body_def)
  have m: "(''participant_name'', JStr ''Ana Cruz'') \<in> set sample_sanitized"
    by (simp add: sample_sanitized_def)
  from sanitize_allow_list [OF sample_validates _ sample_sanitizes]
  have k: "map fst sample_sanitized = allowed_fields"
    and t: "\<forall>(k, x)\<in>set sample_sanitized. \<forall>s. x = JStr s \<longrightarrow> trimmed s" by simp_all
  from t m have "trimmed ''Ana Cruz''" by blast
  moreover have "''role'' \<notin> set (map fst sample_sanitized)"
    unfolding k by (simp add: allowed_fields_def)
  ultimately show ?thesis using r k sample_validates sample_sanitizes by simp
qed

text \<open>
  Claim C10. Whenever sanitization returns a record, each of its seven string fields is
  \<open>null\<close> or a non-empty string without leading or trailing white space; a field that
  is absent, \<open>null\<close>, empty or made of white space only in the body is \<open>null\<close> in the
  record, and so is the age when the body's age is falsy.
\<close>

theorem sanitize_null_or_trimmed:
  assumes "sanitizeCertificateData d = Inr out"
  shows "(\<forall>f\<in>set string_fields.
            (map_of out f = Some JNull
               \<or> (\<exists>s. map_of out f = Some (JStr s) \<and> s \<noteq> [] \<and> trimmed s))
          \<and> ((d f = None \<or> d f = Some JNull
                \<or> (\<exists>s. d f = Some (JStr s) \<and> (\<forall>c\<in>set s. isWhiteSpace c)))
               \<longrightarrow> map_of out f = Some JNull))
       \<and> (\<not> truthy (d ''age'') \<longrightarrow> map_of out ''age'' = Some JNull)"
proof -
  from sanitize_Inr [OF assms] obtain v1 v2 v3 v4 v5 v6 v7 v8 where
    f: "trim_or_null (d ''participant_name'') = Inr v1"
       "trim_or_null (d ''training_type'') = Inr v2"
       "trim_or_null (d ''training_date'') = Inr v3"
       "trim_or_null (d ''venue'') = Inr v4"
       "trim_or_null (d ''facility'') = Inr v5"
       "trim_or_null (d ''participant_type'') = Inr v6"
       "trim_or_null (d ''position'') = Inr v8" and
    a: "age_or_null (d ''age'') = Inr v7" and
    out: "out = [(''participant_name'', v1), (''training_type'', v2), (''training_date'', v3),
            (''venue'', v4), (''facility'', v5), (''participant_type'', v6), (''age'', v7),
            (''position'', v8)]"
    by blast
  have field: "(r = JNull \<or> (\<exists>s. r = JStr s \<and> s \<noteq> [] \<and> trimmed s))
       \<and> ((x = None \<or> x = Some JNull
             \<or> (\<exists>s. x = Some (JStr s) \<and> (\<forall>c\<in>set s. isWhiteSpace c)))
            \<longrightarrow> r = JNull)" if "trim_or_null x = Inr r" for x r
    using that trim_or_null_shape [OF that] trim_or_null_blank [of x] by auto
  have age: "\<not> truthy (d ''age'') \<longrightarrow> v7 = JNull"
    using a by (auto simp: age_or_null_def split: if_splits)
  show ?thesis
    using f [THEN field] age by (simp add: out string_fields_def)
qed

theorem sanitize_null_or_trimmed_witness:
  "sanitizeCertificateData sample_body = Inr sample_sanitized
   \<and> sample_body ''venue'' = Some (JStr ''   '')
   \<and> map_of sample_sanitized ''venue'' = Some JNull
   \<and> sample_body ''participant_type'' = Some (JStr [])
   \<and> map_of sample_sanitized ''participant_type'' = Some JNull
   \<and> sample_body ''facility'' = None
   \<and> map_of sample_sanitized ''facility'' = Some JNull
   \<and> (\<exists>s. map_of sample_sanitized ''participant_name'' = Some (JStr s) \<and> s \<noteq> [] \<and> trimmed s)"
proof -
  have b: "sample_body ''venue'' = Some (JStr ''   '')"
    "sample_body ''participant_type'' = Some (JStr [])" "sample_body ''facility'' = None"
    by (simp_all add: sample_body_def)
  have ws: "\<forall>c\<in>set ''   ''. isWhiteSpace c" by (simp add: isWhiteSpace_def)
  have n: "map_of sample_sanitized ''participant_name'' \<noteq> Some JNull"
    by (simp add: sample_sanitized_def)
  from sanitize_null_or_trimmed [OF sample_sanitizes]
  have all: "\<forall>f\<in>set string_fields.
            (map_of sample_sanitized f = Some JNull
               \<or> (\<exists>s. map_of sample_sanitized f = Some (JStr s) \<and> s \<noteq> [] \<and> trimmed s))
          \<and> ((sample_body f = None \<or> sample_body f = Some JNull
                \<or> (\<exists>s. sample_body f = Some (JStr s) \<and> (\<forall>c\<in>set s. isWhiteSpace c)))
               \<longrightarrow> map_of sample_sanitized f = Some JNull)"
    by blast
  have "map_of sample_sanitized ''venue'' = Some JNull"
    using all [rule_format, of "''venue''"] b(1) ws by (simp add: string_fields_def)
  moreover have "map_of sample_sanitized ''participant_type'' = Some JNull"
    using all [rule_format, of "''participant_type''"] b(2) by (simp add: string_fields_def)
  moreover have "map_of sample_sanitized ''facility'' = Some JNull"
    using all [rule_format, of "''facility''"] b(3) by (simp add: string_fields_def)
  moreover have "\<exists>s. map_of sample_sanitized ''participant_name'' = Some (JStr s)
      \<and> s \<noteq> [] \<and> trimmed s"
    using all [rule_format, of "''participant_name''"] n by (simp add: string_fields_def)
  ultimately show ?thesis using b sample_sanitizes by simp
qed

text \<open>
  Claim C3, evaluated at the body \<^verbatim>\<open>{"participant_name": "Ana Cruz", "age": 0}\<close>:
  validation accepts the age \<open>0\<close>, and sanitization returns a record whose age is
  \<open>null\<close>, not \<open>0\<close>.
\<close>

theorem age_zero_dropped:
  "validateCertificateData age_zero_body = Inr \<lparr>valid = True, errors = []\<rparr>
   \<and> sanitizeCertificateData age_zero_body =
       Inr [(''participant_name'', JStr ''Ana Cruz''), (''training_type'', JNull),
            (''training_date'', JNull), (''venue'', JNull), (''facility'', JNull),
            (''participant_type'', JNull), (''age'', JNull), (''position'', JNull)]"
  by code_simp

text \<open>The same age sent as the string \<open>0\<close> is kept.\<close>

lemma age_zero_string_kept:
  "map_of (projr (sanitizeCertificateData
                    [''participant_name'' \<mapsto> JStr ''Ana Cruz'', ''age'' \<mapsto> JStr ''0'']))
     ''age'' = Some (JNum 0)"
  by code_simp

section \<open>Properties of the certificate page\<close>

subsection \<open>Positions\<close>

lemma positions_Nil: "positions Q [] = []"
  by (simp add: positions_def)

lemma positions_Cons:
  "positions Q (c # cs) = (if Q (c # cs) then [0] else []) @ map Suc (positions Q cs)"
proof -
  have "[0..<length (c # cs)] = 0 # map Suc [0..<length cs]"
    by (simp add: upt_conv_Cons map_Suc_upt del: upt_Suc)
  then show ?thesis by (simp add: positions_def filter_map comp_def)
qed

subsection \<open>The year\<close>

lemma match_year_spec: "(case match_year s of Some y \<Rightarrow> y | None \<Rightarrow> ''2026'') = spec_year s"
proof (induction s rule: match_year.induct)
  case (1 a b c d rest)
  then show ?case
    by (auto simp: spec_year_def positions_Cons [of _ a] four_digits_def split: list.splits)
qed (simp_all add: spec_year_def positions_Cons positions_Nil four_digits_def)

subsection \<open>The numbers\<close>

lemma run_starts_after: "run_starts s = starts_after False s"
  by (auto simp: run_starts_def starts_after_def intro: filter_cong)

lemma starts_after_Nil: "starts_after p [] = []"
  by (simp add: starts_after_def)

lemma starts_after_Cons:
  "starts_after p (c # cs) =
     (if isDigit c \<and> \<not> p then [0] else []) @ map Suc (starts_after (isDigit c) cs)"
proof -
  have u: "[0..<length (c # cs)] = 0 # map Suc [0..<length cs]"
    by (simp add: upt_conv_Cons map_Suc_upt del: upt_Suc)
  have "filter ((\<lambda>i. isDigit ((c # cs) ! i)
              \<and> (if i = 0 then \<not> p else \<not> isDigit ((c # cs) ! (i - 1)))) \<circ> Suc) [0..<length cs]
      = filter (\<lambda>i. isDigit (cs ! i)
              \<and> (if i = 0 then \<not> isDigit c else \<not> isDigit (cs ! (i - 1)))) [0..<length cs]"
    by (rule filter_cong) (auto simp: nth_Cons')
  then show ?thesis
    unfolding starts_after_def u by (simp add: filter_map)
qed

lemma runs_after_digit:
  "map (\<lambda>i. takeWhile isDigit (drop i cs)) (starts_after True cs)
   = map (\<lambda>i. takeWhile isDigit (drop i (dropWhile isDigit cs)))
       (starts_after False (dropWhile isDigit cs))"
proof (induction cs)
  case Nil
  then show ?case by (simp add: starts_after_Nil)
next
  case (Cons c cs)
  then show ?case by (cases "isDigit c") (simp_all add: starts_after_Cons comp_def)
qed

lemma allNums_runs:
  "allNums s = map (\<lambda>i. takeWhile isDigit (drop i s)) (run_starts s)"
  unfolding run_starts_after
proof (induction s rule: allNums.induct)
  case 1
  then show ?case by (simp add: starts_after_Nil)
next
  case (2 c cs)
  then show ?case
    by (cases "isDigit c") (simp_all add: starts_after_Cons comp_def runs_after_digit)
qed

lemma allNums_spec: "map Number (allNums s) = spec_numbers s"
  by (simp add: allNums_runs spec_numbers_def comp_def)

subsection \<open>The month\<close>

lemma month_names_overlap_free: "overlap_free month_names"
  by code_simp

lemma month_names_title_shaped: "list_all title_shaped month_names"
  by code_simp

lemma lower_letters_facts:
  "list_all (\<lambda>c. toLower (toUpper c) = c \<and> toLower c = c \<and> notSpaceHyphen c) lower_letters"
  by code_simp

lemma upper_letters_facts: "list_all notSpaceHyphen upper_letters"
  by code_simp

lemma latin_lower_facts: "list_all (\<lambda>c. toUpper c \<in> set latin_upper) latin_lower"
  by code_simp

lemma latin_upper_facts: "list_all (\<lambda>c. c \<notin> set upper_letters) latin_upper"
  by code_simp

lemma letter_tables_length:
  "length (lower_letters @ latin_lower) = length (upper_letters @ latin_upper)"
  by (simp add: lower_letters_def upper_letters_def latin_lower_def latin_upper_def)

lemma toUpper_other:
  assumes "c \<notin> set lower_letters" and "c \<notin> set latin_lower"
  shows "toUpper c = c"
proof -
  from assms have "c \<notin> set (lower_letters @ latin_lower)" by simp
  with map_of_zip_is_None [OF letter_tables_length, of c]
  have "map_of (zip (lower_letters @ latin_lower) (upper_letters @ latin_upper)) c = None"
    by blast
  then show ?thesis by (simp add: toUpper_def)
qed

lemma toUpper_letter:
  assumes "toUpper c = u" and "u \<in> set upper_letters"
  shows "isWordChar c" and "notSpaceHyphen c" and "toLower c = toLower u"
proof -
  have "isWordChar c \<and> notSpaceHyphen c \<and> toLower c = toLower u"
  proof (cases "c \<in> set lower_letters")
    case True
    with lower_letters_facts
    have "toLower (toUpper c) = c" "toLower c = c" "notSpaceHyphen c"
      by (simp_all add: list_all_iff)
    with True assms(1) show ?thesis by (simp add: isWordChar_def)
  next
    case False
    have "c \<notin> set latin_lower"
    proof
      assume "c \<in> set latin_lower"
      with latin_lower_facts have "toUpper c \<in> set latin_upper" by (simp add: list_all_iff)
      with latin_upper_facts have "toUpper c \<notin> set upper_letters" by (simp add: list_all_iff)
      with assms show False by simp
    qed
    with False assms have "c = u" by (simp add: toUpper_other)
    with assms(2) upper_letters_facts show ?thesis
      by (simp add: isWordChar_def list_all_iff)
  qed
  then show "isWordChar c" and "notSpaceHyphen c" and "toLower c = toLower u" by simp_all
qed

lemma ci_prefix_iff:
  "ci_prefix p s \<longleftrightarrow> length p \<le> length s \<and> map toUpper (take (length p) s) = map toUpper p"
  by (induction p s rule: ci_prefix.induct) auto

lemma month_at_None_iff:
  "month_at s = None \<longleftrightarrow> (\<forall>m\<in>set month_names. \<not> ci_prefix m s)"
  by (auto simp: month_at_def find_None_iff)

lemma month_at_Some:
  "month_at s = Some m \<Longrightarrow> m \<in> set month_names \<and> ci_prefix m s"
  by (auto simp: month_at_def find_Some_iff)

lemma no_month_inside:
  assumes m: "m \<in> set month_names" and p: "ci_prefix m s" and d: "0 < d" "d < length m"
  shows "month_at (drop d s) = None"
proof -
  have "\<not> ci_prefix m2 (drop d s)" if m2: "m2 \<in> set month_names" for m2
  proof
    assume q: "ci_prefix m2 (drop d s)"
    define k where "k = min (length m2) (length m - d)"
    have k: "k \<le> length m2" "k \<le> length m - d" by (simp_all add: k_def)
    from p have pm: "map toUpper (take (length m) s) = map toUpper m"
      by (simp add: ci_prefix_iff)
    from q have qm: "map toUpper (take (length m2) (drop d s)) = map toUpper m2"
      by (simp add: ci_prefix_iff)
    have "take k (map toUpper m2) = map toUpper (take k (take (length m2) (drop d s)))"
      unfolding qm [symmetric] by (simp add: take_map)
    also have "\<dots> = map toUpper (take k (drop d s))"
      using k by (simp add: min_absorb1)
    also have "\<dots> = map toUpper (take k (drop d (take (length m) s)))"
      using k by (simp add: drop_take min_absorb1)
    also have "\<dots> = take k (drop d (map toUpper m))"
      unfolding pm [symmetric] by (simp add: take_map drop_map)
    finally have eq: "take k (map toUpper m2) = take k (drop d (map toUpper m))" .
    from d have "d \<in> set [1..<length m]" by simp
    with month_names_overlap_free m m2
    have "take k (map toUpper m2) \<noteq> take k (drop d (map toUpper m))"
      unfolding overlap_free_def list_all_iff k_def by blast
    with eq show False by simp
  qed
  then show ?thesis by (simp add: month_at_None_iff)
qed

lemma sharp_s_facts:
  "toUpper (CHR 0xDF) = CHR 0xDF \<and> CHR 0xDF \<notin> set upper_letters \<and> toLower (CHR 0xDF) = CHR 0xDF
   \<and> \<not> isWhiteSpace (CHR 0xDF) \<and> \<not> isWhiteSpace CHR ''S''"
  by code_simp

lemma toUpperCase_plain: "CHR 0xDF \<notin> set s \<Longrightarrow> toUpperCase s = map toUpper s"
  by (induction s) (auto simp: toUpperCase_def upper_of_def)

lemma toUpperCase_length:
  "length s \<le> length (toUpperCase s)
   \<and> (length (toUpperCase s) = length s \<longrightarrow> CHR 0xDF \<notin> set s)"
  by (induction s) (auto simp: toUpperCase_def upper_of_def)

lemma upper_letters_plain:
  assumes "list_all (\<lambda>x. toUpper x \<in> set upper_letters) w"
  shows "CHR 0xDF \<notin> set w"
proof
  assume "CHR 0xDF \<in> set w"
  with assms have "toUpper (CHR 0xDF) \<in> set upper_letters" by (simp add: list_all_iff)
  with sharp_s_facts show False by simp
qed

lemma same_upper_shape:
  assumes "map toUpper w = map toUpper m"
    and "list_all (\<lambda>x. toUpper x \<in> set upper_letters) m"
  shows "list_all (\<lambda>x. toUpper x \<in> set upper_letters) w"
proof -
  from assms(2) have "list_all (\<lambda>u. u \<in> set upper_letters) (map toUpper m)"
    by (simp add: list_all_iff)
  with assms(1) have "list_all (\<lambda>u. u \<in> set upper_letters) (map toUpper w)" by simp
  then show ?thesis by (simp add: list_all_iff)
qed

lemma spells_iff:
  assumes "list_all (\<lambda>x. toUpper x \<in> set upper_letters) m"
  shows "spells m t \<longleftrightarrow> ci_prefix m t"
proof
  from upper_letters_plain [OF assms] have pm: "toUpperCase m = map toUpper m"
    by (rule toUpperCase_plain)
  let ?w = "take (length m) t"
  {
    assume "spells m t"
    then have len: "length m \<le> length t" and up: "toUpperCase ?w = map toUpper m"
      by (simp_all add: spells_def pm)
    from up have "length (toUpperCase ?w) = length m" by simp
    with len have "length (toUpperCase ?w) = length ?w" by simp
    with toUpperCase_length [of ?w] have "CHR 0xDF \<notin> set ?w" by blast
    with up have "map toUpper ?w = map toUpper m" by (simp add: toUpperCase_plain)
    with len show "ci_prefix m t" by (simp add: ci_prefix_iff)
  }
  {
    assume "ci_prefix m t"
    then have len: "length m \<le> length t" and up: "map toUpper ?w = map toUpper m"
      by (simp_all add: ci_prefix_iff)
    from upper_letters_plain [OF same_upper_shape [OF up assms]]
    have "toUpperCase ?w = map toUpper ?w" by (rule toUpperCase_plain)
    with len up pm show "spells m t" by (simp add: spells_def)
  }
qed

lemma month_spells: "m \<in> set month_names \<Longrightarrow> spells m t \<longleftrightarrow> ci_prefix m t"
  using month_names_title_shaped by (intro spells_iff) (simp add: list_all_iff title_shaped_def)

lemma same_upper_letters:
  assumes "map toUpper w = map toUpper m"
    and "list_all (\<lambda>x. toUpper x \<in> set upper_letters) m"
  shows "list_all isWordChar w \<and> list_all notSpaceHyphen w \<and> toLowerCase w = toLowerCase m"
  using assms
proof (induction w arbitrary: m)
  case Nil
  then show ?case by (simp add: toLowerCase_def)
next
  case (Cons c w)
  then obtain x m' where m: "m = x # m'" by (cases m) auto
  with Cons.prems have u: "toUpper c = toUpper x" and r: "map toUpper w = map toUpper m'"
    and l: "toUpper x \<in> set upper_letters"
    and l': "list_all (\<lambda>x. toUpper x \<in> set upper_letters) m'"
    by simp_all
  from toUpper_letter [OF u l] toUpper_letter(3) [OF refl l]
  have "isWordChar c" "notSpaceHyphen c" "toLower c = toLower x" by simp_all
  with Cons.IH [OF r l'] show ?case by (simp add: m toLowerCase_def)
qed

lemma toTitleCase_word:
  assumes "w \<noteq> []" and "list_all isWordChar w" and "list_all notSpaceHyphen w"
  shows "toTitleCase w = toUpperCase (take 1 w) @ toLowerCase (drop 1 w)"
proof -
  from assms(1) obtain c cs where w: "w = c # cs" by (cases w) auto
  from assms(3) have tw: "takeWhile notSpaceHyphen cs = cs"
    and dw: "dropWhile notSpaceHyphen cs = []"
    by (simp_all add: w list_all_iff)
  from assms(2) have c: "isWordChar c" by (simp add: w)
  show ?thesis
    unfolding w toTitleCase_def by (simp add: tw dw c capitalize_def)
qed

lemma month_match_title:
  assumes "month_at s = Some m"
  shows "toTitleCase (take (length m) s) = m"
proof -
  from month_at_Some [OF assms] have m: "m \<in> set month_names" and p: "ci_prefix m s" by auto
  from m month_names_title_shaped have t: "title_shaped m" by (simp add: list_all_iff)
  let ?w = "take (length m) s"
  from p have len: "length m \<le> length s" and up: "map toUpper ?w = map toUpper m"
    by (simp_all add: ci_prefix_iff)
  from t have ml: "list_all (\<lambda>x. toUpper x \<in> set upper_letters) m"
    by (simp add: title_shaped_def)
  then have "CHR 0xDF \<notin> set m" by (rule upper_letters_plain)
  with set_take_subset [of 1 m] have "CHR 0xDF \<notin> set (take 1 m)" by blast
  then have pm: "toUpperCase (take 1 m) = map toUpper (take 1 m)" by (rule toUpperCase_plain)
  from same_upper_shape [OF up ml] have "CHR 0xDF \<notin> set ?w" by (rule upper_letters_plain)
  with set_take_subset [of 1 ?w] have "CHR 0xDF \<notin> set (take 1 ?w)" by blast
  then have pw: "toUpperCase (take 1 ?w) = map toUpper (take 1 ?w)" by (rule toUpperCase_plain)
  from t have ne: "m \<noteq> []" by (simp add: title_shaped_def)
  with len have wne: "?w \<noteq> []" by (cases s) auto
  from same_upper_letters [OF up] t
  have w: "list_all isWordChar ?w" "list_all notSpaceHyphen ?w"
    and low: "toLowerCase ?w = toLowerCase m"
    by (simp_all add: title_shaped_def)
  have "toUpperCase (take 1 ?w) = take 1 (map toUpper ?w)"
    unfolding pw by (simp only: take_map)
  also have "\<dots> = toUpperCase (take 1 m)" unfolding up pm by (simp only: take_map)
  finally have a: "toUpperCase (take 1 ?w) = toUpperCase (take 1 m)" .
  have "toLowerCase (drop 1 ?w) = drop 1 (toLowerCase ?w)"
    by (simp add: toLowerCase_def drop_map)
  also have "\<dots> = toLowerCase (drop 1 m)" unfolding low by (simp add: toLowerCase_def drop_map)
  finally have b: "toLowerCase (drop 1 ?w) = toLowerCase (drop 1 m)" .
  from t have "toUpperCase (take 1 m) @ toLowerCase (drop 1 m) = m"
    by (simp add: title_shaped_def)
  with toTitleCase_word [OF wne w] a b show ?thesis by simp
qed

lemma month_scan_positions:
  assumes "\<forall>d<k. month_at (drop d s) = None"
  shows "month_scan k s
       = map (\<lambda>i. take (length (the (month_at (drop i s)))) (drop i s))
           (positions (\<lambda>t. month_at t \<noteq> None) s)"
  using assms
proof (induction k s rule: month_scan.induct)
  case (1 k)
  then show ?case by (simp add: positions_Nil)
next
  case (2 k c cs)
  from "2.prems" have h: "month_at (c # cs) = None" by (auto dest: spec [of _ 0])
  have "\<forall>d<k. month_at (drop d cs) = None"
  proof (intro allI impI)
    fix d assume "d < k"
    then have "Suc d < Suc k" by simp
    with "2.prems" have "month_at (drop (Suc d) (c # cs)) = None" by blast
    then show "month_at (drop d cs) = None" by simp
  qed
  from "2.IH" [OF this] h show ?case by (simp add: positions_Cons comp_def)
next
  case (3 c cs)
  show ?case
  proof (cases "month_at (c # cs)")
    case None
    with "3.IH"(1) show ?thesis by (simp add: positions_Cons comp_def)
  next
    case (Some m)
    from month_at_Some [OF Some] have m: "m \<in> set month_names" "ci_prefix m (c # cs)" by auto
    have "\<forall>d<length m - 1. month_at (drop d cs) = None"
    proof (intro allI impI)
      fix d assume "d < length m - 1"
      then have "0 < Suc d" "Suc d < length m" by auto
      from no_month_inside [OF m this] show "month_at (drop d cs) = None" by simp
    qed
    from "3.IH"(2) [OF Some this] Some show ?thesis by (simp add: positions_Cons comp_def)
  qed
qed

lemma month_here_iff: "month_here t \<longleftrightarrow> month_at t \<noteq> None"
  by (auto simp: month_here_def month_at_None_iff month_spells)

lemma month_name_at_Some: "month_at t = Some m \<Longrightarrow> month_name_at t = m"
proof -
  have "find (\<lambda>m. spells m t) month_names = find (\<lambda>m. ci_prefix m t) month_names"
    by (rule find_cong) (simp_all add: month_spells)
  then show "month_at t = Some m \<Longrightarrow> month_name_at t = m"
    by (simp add: month_name_at_def month_at_def)
qed

lemma month_result_spec:
  "(if monthMatch s \<noteq> [] then toTitleCase (last (monthMatch s)) else []) = spec_month s"
proof -
  define ps where "ps = positions (\<lambda>t. month_at t \<noteq> None) s"
  have ph: "positions month_here s = ps" by (simp add: ps_def positions_def month_here_iff)
  have mm: "monthMatch s = map (\<lambda>i. take (length (the (month_at (drop i s)))) (drop i s)) ps"
    unfolding monthMatch_def ps_def by (rule month_scan_positions) simp
  show ?thesis
  proof (cases ps rule: rev_cases)
    case Nil
    then show ?thesis by (simp add: mm spec_month_def ph)
  next
    case (snoc xs i)
    then have "i \<in> set ps" by simp
    then have "month_at (drop i s) \<noteq> None" by (simp add: ps_def positions_def)
    then obtain m where m: "month_at (drop i s) = Some m" by auto
    have "last (monthMatch s) = take (length m) (drop i s)"
      by (simp add: mm snoc m)
    with month_match_title [OF m] month_name_at_Some [OF m] show ?thesis
      by (simp add: mm spec_month_def ph snoc)
  qed
qed


subsection \<open>The date components\<close>

lemma rev_case_last:
  "(case rev xs of [] \<Rightarrow> d | n # _ \<Rightarrow> n) = (if length xs > 0 then last xs else d)"
  by (cases xs rule: rev_cases) simp_all

lemma run_starts_Nil: "run_starts [] = []"
  by (simp add: run_starts_def)

lemma year_of_components: "year (parseFinalDateComponents (Some s)) = spec_year s"
  using match_year_spec [of s]
  by (simp add: parseFinalDateComponents_def Let_def spec_year_def positions_Nil)

lemma digits_parseIntStr:
  assumes "list_all isDigit y" and "y \<noteq> []"
  shows "parseIntStr y = JNum (int (Number y))"
proof -
  from assms obtain c cs where y: "y = c # cs" and c: "isDigit c" and cs: "list_all isDigit cs"
    by (cases y) auto
  from c have s1: "dropWhile isWhiteSpace y = y"
    by (auto simp: y isDigit_def isWhiteSpace_def)
  from c have sign: "\<not> (y \<noteq> [] \<and> hd y = CHR ''-'')"
      "\<not> (y \<noteq> [] \<and> (hd y = CHR ''-'' \<or> hd y = CHR ''+''))"
    by (auto simp: y isDigit_def)
  have hex: "\<not> (take 2 y = ''0x'' \<or> take 2 y = ''0X'')"
    using cs by (cases cs) (auto simp: y isDigit_def)
  from c obtain d where "dec_value c = Some d"
    by (auto simp: isDigit_def dec_value_def)
  then have ne: "radix_prefix dec_value y \<noteq> []" by (simp add: y)
  show ?thesis
    unfolding parseIntStr_def Number_def Let_def s1
    by (simp only: sign hex ne if_False)
qed

lemma spec_year_digits: "list_all isDigit (spec_year s) \<and> spec_year s \<noteq> []"
proof (cases "positions four_digits s")
  case Nil
  then show ?thesis by (simp add: spec_year_def isDigit_def)
next
  case (Cons i ps)
  then have "i \<in> set (positions four_digits s)" by simp
  then have "four_digits (drop i s)" by (simp add: positions_def)
  with Cons show ?thesis by (auto simp: spec_year_def four_digits_def)
qed

lemma year_number: "parseIntStr (spec_year s) = JNum (int (Number (spec_year s)))"
  using spec_year_digits [of s] by (simp add: digits_parseIntStr)

text \<open>
  Claim C8. For every date string, missing or present, \<open>parseFinalDateComponents\<close>
  returns as year the first substring of four digits (\<open>2026\<close> when there is none or the
  string is empty or missing), as month the English month name spelled, in any letter
  case, at the last position of the string where one is spelled (empty when there is
  none), and as day the last number of the string that lies in \<open>1..31\<close> and differs from
  the parsed year (\<open>1\<close> when there is none). The right-hand side states exactly this over
  the positions of the string; the left-hand side is the scanning of the three patterns.
\<close>

theorem parseFinalDateComponents_spec:
  "parseFinalDateComponents ds = spec_date_components ds"
proof (cases ds)
  case None
  then show ?thesis by (simp add: parseFinalDateComponents_def spec_date_components_def)
next
  case (Some s)
  show ?thesis
  proof (cases "s = []")
    case True
    with Some show ?thesis
      by (simp add: parseFinalDateComponents_def spec_date_components_def spec_year_def
            spec_month_def spec_day_def spec_numbers_def positions_Nil run_starts_Nil)
  next
    case False
    have "(\<lambda>n. 0 < n \<and> n \<le> 31 \<and> JNum (int n) \<noteq> parseIntStr (spec_year s))
        = (\<lambda>n. 1 \<le> n \<and> n \<le> 31 \<and> n \<noteq> Number (spec_year s))"
      by (auto simp: fun_eq_iff year_number)
    with Some False show ?thesis
      using match_year_spec [of s] month_result_spec [of s] allNums_spec [of s]
      by (simp add: parseFinalDateComponents_def spec_date_components_def Let_def spec_day_def
            rev_case_last)
  qed
qed

theorem parseFinalDateComponents_spec_witness:
  "parseFinalDateComponents (Some ''14-18'') = \<lparr>year = ''2026'', month = [], day = 18\<rparr>
   \<and> parseFinalDateComponents (Some ''JANUARY 30 - february 2, 2026'')
       = \<lparr>year = ''2026'', month = ''February'', day = 2\<rparr>"
proof -
  have "spec_date_components (Some ''14-18'') = \<lparr>year = ''2026'', month = [], day = 18\<rparr>"
    by code_simp
  moreover have "spec_date_components (Some ''JANUARY 30 - february 2, 2026'')
       = \<lparr>year = ''2026'', month = ''February'', day = 2\<rparr>"
    by code_simp
  ultimately show ?thesis by (simp add: parseFinalDateComponents_spec)
qed

subsection \<open>The certificate code\<close>

lemma lookup_training:
  "\<not> inherited_name t \<Longrightarrow>
   getTrainingAcronym (or_else t ''Training Program'') = Some (spec_training_acronym t)"
  by (auto simp: getTrainingAcronym_def lookup_or_def training_mapping_def or_else_def
        spec_training_acronym_def inherited_name_def object_prototype_keys_def
        split: option.splits)

lemma lookup_participant:
  "\<not> inherited_name p \<Longrightarrow>
   getParticipantAcronym (or_else p ''Lay Rescuer'') = Some (spec_participant_acronym p)"
  by (auto simp: getParticipantAcronym_def lookup_or_def participant_mapping_def or_else_def
        spec_participant_acronym_def inherited_name_def object_prototype_keys_def
        split: option.splits)

lemma certificateId_spec: "certificateId (Some r) = spec_id r"
  by (auto simp: certificateId_def spec_id_def opt_field_def split: option.splits)

lemma dateString_spec: "dateString (Some r) = spec_date r"
  by (auto simp: dateString_def spec_date_def opt_field_def or_else_def split: option.splits)

text \<open>
  Claim C7, as stated, fails at a stored record without participant type: the page
  replaces the missing type by \<open>Lay Rescuer\<close> before the lookup, so the code carries
  \<open>LR\<close> where the claim has the fallback \<open>PART\<close>.
\<close>

theorem certificateCode_counterexample:
  "certificateCode sample_props = Some ''DOHCHD-1-BLS-LR-2026-7''
   \<and> claimed_code sample_cert = ''DOHCHD-1-BLS-PART-2026-7''"
  by code_simp

text \<open>
  Claim C7, amended. For every record whose training type and participant type are not
  names of properties inherited from \<open>Object.prototype\<close>, the certificate code of the
  page is the prefix \<open>DOHCHD-1\<close>, the training acronym of the lookup table (\<open>TRNG\<close> for
  a missing or unlisted type), the participant acronym of the lookup table (\<open>LR\<close> for a
  missing or empty type, \<open>PART\<close> for any other unlisted type), the first four digits of
  the record's date string (\<open>2026\<close> when there are none) and the record id, joined by
  hyphens. The signatory settings do not enter the code.
\<close>

theorem certificateCode_spec:
  assumes "cert props = Some r"
    and "\<not> inherited_name (training_type r)" and "\<not> inherited_name (participant_type r)"
  shows "certificateCode props = Some (spec_code r)
       \<and> certificateCode (props\<lparr>signerName := n, signerPosition := p\<rparr>) = certificateCode props"
  using assms lookup_training [OF assms(2)] lookup_participant [OF assms(3)]
  by (simp add: certificateCode_def Let_def opt_field_def certificateId_spec dateString_spec
        year_of_components spec_code_def)

theorem certificateCode_spec_witness:
  "cert sample_props = Some sample_cert
   \<and> \<not> inherited_name (training_type sample_cert)
   \<and> \<not> inherited_name (participant_type sample_cert)
   \<and> certificateCode sample_props = Some ''DOHCHD-1-BLS-LR-2026-7''
   \<and> certificateCode (sample_props\<lparr>signerName := None, signerPosition := Some ''Director''\<rparr>)
       = Some ''DOHCHD-1-BLS-LR-2026-7''"
proof -
  have c: "cert sample_props = Some sample_cert" by (simp add: sample_props_def)
  have t: "\<not> inherited_name (training_type sample_cert)" by code_simp
  have p: "\<not> inherited_name (participant_type sample_cert)" by code_simp
  have s: "spec_code sample_cert = ''DOHCHD-1-BLS-LR-2026-7''" by code_simp
  from certificateCode_spec [OF c t p, where n = None and p = "Some ''Director''"] c t p s
  show ?thesis by simp
qed

section \<open>Properties of grouping\<close>






















section \<open>Properties of the batch listing\<close>

lemma insert_by_set: "set (insert_by cmp x ys) = insert x (set ys)"
  by (induction ys) auto

lemma sort_by_set: "set (sort_by cmp xs) = set xs"
  by (induction xs) (simp_all add: sort_by_def insert_by_set)

lemma sort_by_length: "length (sort_by cmp xs) = length xs"
proof -
  have "length (insert_by cmp x ys) = Suc (length ys)" for x ys
    by (induction ys) auto
  then show ?thesis by (induction xs) (simp_all add: sort_by_def)
qed

lemma insert_by_descending:
  assumes "\<And>a b. a \<in> A \<Longrightarrow> b \<in> A \<Longrightarrow> cmp a b = Some (t b - t a)"
    and "x \<in> A" and "set ys \<subseteq> A"
    and "sorted_wrt (\<lambda>a b. t b \<le> t a) ys"
  shows "sorted_wrt (\<lambda>a b. t b \<le> t a) (insert_by cmp x ys)"
  using assms(3,4)
proof (induction ys)
  case Nil
  then show ?case by simp
next
  case (Cons y ys)
  then have c: "cmp x y = Some (t y - t x)" using assms(1,2) by simp
  show ?case
  proof (cases "t x < t y")
    case True
    with Cons c show ?thesis by (auto simp: insert_by_set)
  next
    case False
    with Cons.prems c show ?thesis by auto
  qed
qed

lemma sort_by_descending:
  assumes "\<And>a b. a \<in> A \<Longrightarrow> b \<in> A \<Longrightarrow> cmp a b = Some (t b - (t a :: int))"
    and "set xs \<subseteq> A"
  shows "sorted_wrt (\<lambda>a b. t b \<le> t a) (sort_by cmp xs)"
  using assms(2)
proof (induction xs)
  case Nil
  then show ?case by (simp add: sort_by_def)
next
  case (Cons x xs)
  then have "sorted_wrt (\<lambda>a b. t b \<le> t a) (sort_by cmp xs)" by simp
  from insert_by_descending [of A cmp t x, OF assms(1) _ _ this] Cons.prems
  show ?case by (simp add: sort_by_def sort_by_set [unfolded sort_by_def])
qed

text \<open>
  When the display date of every batch gives a valid date, the listing holds the batches
  by non-increasing date: the order is descending.
\<close>

lemma sorted_batches_descending:
  assumes "\<forall>b\<in>set g. getSortableDate Date (displayDate (snd b)) \<noteq> None"
  shows "sorted_wrt (\<lambda>a b. the (getSortableDate Date (displayDate (snd b)))
                        \<le> the (getSortableDate Date (displayDate (snd a))))
           (sorted_batches Date g)
       \<and> set (sorted_batches Date g) = set g \<and> length (sorted_batches Date g) = length g"
proof -
  have "compare_batches Date a b
      = Some (the (getSortableDate Date (displayDate (snd b)))
              - the (getSortableDate Date (displayDate (snd a))))"
    if "a \<in> set g" and "b \<in> set g" for a b
  proof -
    from assms that obtain ta tb where
      "getSortableDate Date (displayDate (snd a)) = Some ta"
      "getSortableDate Date (displayDate (snd b)) = Some tb" by fastforce
    then show ?thesis by (simp add: compare_batches_def)
  qed
  from sort_by_descending [of "set g" "compare_batches Date", OF this]
  show ?thesis by (simp add: sorted_batches_def sort_by_set sort_by_length)
qed

text \<open>
  Claim C1, evaluated. Two batches dated January 5-9 and January 23-27, 2026, grouped in
  this order, are listed with January 23-27 first: the comparator subtracts the date of
  its first argument from the date of its second, which sorts in descending order. A
  batch whose display date gives an invalid date has no time value at all, rather than
  the epoch, and is listed after the batch of January 5-9.
\<close>

theorem listing_descending:
  "map (\<lambda>(k, b). displayDate b) (filteredAndGroupedCerts [cert_jan5, cert_jan23] [])
     = [''JANUARY 5-9, 2026'', ''JANUARY 23-27, 2026'']
   \<and> getSortableDate sample_Date ''JANUARY 5-9, 2026'' = Some 1767571200000
   \<and> getSortableDate sample_Date ''JANUARY 23-27, 2026'' = Some 1769126400000
   \<and> listing sample_Date [cert_jan5, cert_jan23] = [''JANUARY 23-27, 2026'', ''JANUARY 5-9, 2026'']
   \<and> getSortableDate sample_Date ''TBA'' = None
   \<and> listing sample_Date [cert_jan5, cert_tba] = [''JANUARY 5-9, 2026'', ''TBA'']"
  by code_simp

section \<open>Properties of the routes\<close>

lemma protected_routes_gated:
  assumes "Protect \<in> set (middlewares r)" and "\<not> valid_token verify req"
  shows "serve verify env r req st = ((401, Message ''Not authorized''), st)"
proof -
  from assms(1) have m: "middlewares r = [Protect]" by (cases r) simp_all
  from assms(2) have "protect verify req = Inl (401, Message ''Not authorized'')"
    by (auto simp: valid_token_def protect_def split: option.splits)
  with m show ?thesis by (simp add: serve_def)
qed

lemma certificate_writes_not_gated:
  "serve verify env PostCertificates req st = post_certificates req st"
  "serve verify env (PutCertificate i) req st = put_certificate i req st"
  by (simp_all add: serve_def)

text \<open>The mutating routes declared without the session gate are these two.\<close>

lemma ungated_mutating_routes:
  "mutating r \<and> Protect \<notin> set (middlewares r)
   \<longleftrightarrow> r = PostCertificates \<or> (\<exists>i. r = PutCertificate i)"
  by (cases r) simp_all

lemma delete_and_settings_protected:
  "Protect \<in> set (middlewares (DeleteCertificate i))" "Protect \<in> set (middlewares PostSettings)"
  by simp_all

text \<open>
  Claim C2, evaluated. The routes that create and update a certificate are declared
  without the session gate: a request without identity cookie creates a record through
  \<^verbatim>\<open>POST /certificates\<close> (status 201) and replaces the stored record 1 through
  \<^verbatim>\<open>PUT /certificates/1\<close> (status 200). The routes that delete a certificate and
  update the settings are gated, see \<open>protected_routes_gated\<close>.
\<close>

theorem unauthenticated_write:
  "\<not> valid_token no_verify no_token_request
   \<and> middlewares PostCertificates = []
   \<and> fst (fst (serve no_verify one_connection PostCertificates no_token_request empty_store)) = 201
   \<and> map row_id
        (certificates
          (snd (serve no_verify one_connection PostCertificates no_token_request empty_store)))
       = [1]
   \<and> middlewares (PutCertificate ''1'') = []
   \<and> map_of (columns stored_row) ''participant_name'' = Some (JStr ''Ben Ramos'')
   \<and> fst (fst (serve no_verify one_connection (PutCertificate ''1'') no_token_request
                one_row_store)) = 200
   \<and> map (\<lambda>r. map_of (columns r) ''participant_name'')
        (certificates
          (snd (serve no_verify one_connection (PutCertificate ''1'') no_token_request
                 one_row_store)))
       = [Some (JStr ''Ana Cruz'')]"
  by code_simp

text \<open>
  Claim C9, evaluated. The statements of the settings update go through
  \<^verbatim>\<open>pool.query\<close> one by one. When \<^verbatim>\<open>BEGIN\<close> is served by one connection and the
  upserts by another, the first upsert takes effect at once; the second one fails, the
  route answers 500 after its \<^verbatim>\<open>ROLLBACK\<close>, and the table holds the new name beside
  the old position. On one connection the update is atomic, see
  \<open>settings_transaction_atomic\<close>.
\<close>

theorem settings_update_partial:
  "valid_token accept_all signatory_request
   \<and> system_settings signatory_store
       = [(''off1_name'', JStr ''Juan Reyes''), (''off1_pos'', JStr ''Director III'')]
   \<and> fst (serve accept_all two_connections PostSettings signatory_request signatory_store)
       = (500, Message ''Failed to update system settings'')
   \<and> system_settings
        (snd (serve accept_all two_connections PostSettings signatory_request signatory_store))
       = [(''off1_name'', JStr ''Maria Santos''), (''off1_pos'', JStr ''Director III'')]"
  by code_simp

lemma upsert_loop_in_tx:
  assumes "\<forall>j. conn_of env j = c" and "open_tx st c = Some (Tx w a)"
  shows "case upsert_loop env i kvs st of
           (r, n, st') \<Rightarrow>
             system_settings st' = system_settings st
             \<and> (case r of
                  Inr _ \<Rightarrow> open_tx st' c = Some (Tx (w @ submitted kvs) a)
                | Inl _ \<Rightarrow> (\<exists>w'. open_tx st' c = Some (Tx w' True)))"
  using assms(2)
proof (induction kvs arbitrary: i st w)
  case Nil
  then show ?case by (simp add: submitted_def)
next
  case (Cons kv kvs)
  obtain k v where kv: "kv = (k, v)" by (cases kv)
  show ?case
  proof (cases "fails env i")
    case True
    with Cons.prems assms(1) show ?thesis
      by (simp add: kv pool_query_def fail_on_def)
  next
    case False
    let ?st = "exec c (Upsert k (value_or_empty v)) st"
    have o: "open_tx ?st c = Some (Tx (w @ [(k, value_or_empty v)]) a)"
      and s: "system_settings ?st = system_settings st"
      using Cons.prems by (simp_all add: exec_def)
    from Cons.IH [OF o, where i = "Suc i"] s False assms(1) show ?thesis
      by (simp add: kv pool_query_def submitted_def split: prod.splits sum.splits)
  qed
qed

lemma settings_transaction_atomic:
  assumes "\<forall>j. conn_of env j = c" and "open_tx st c = None"
  shows "case settings_transaction env kvs st of
           (Inr _, st') \<Rightarrow>
             system_settings st' = apply_writes (submitted kvs) (system_settings st)
         | (Inl _, st') \<Rightarrow> system_settings st' = system_settings st"
proof (cases "fails env 0")
  case True
  with assms show ?thesis
    by (simp add: settings_transaction_def pool_query_def fail_on_def)
next
  case False
  let ?st0 = "exec c Begin st"
  have o: "open_tx ?st0 c = Some (Tx [] False)" and s: "system_settings ?st0 = system_settings st"
    using assms(2) by (simp_all add: exec_def)
  obtain r n st1 where l: "upsert_loop env 1 kvs ?st0 = (r, n, st1)"
    by (cases "upsert_loop env 1 kvs ?st0") auto
  from upsert_loop_in_tx [OF assms(1) o, where i = 1 and kvs = kvs] l
  have s1: "system_settings st1 = system_settings st"
    and t1: "case r of Inr _ \<Rightarrow> open_tx st1 c = Some (Tx (submitted kvs) False)
                    | Inl _ \<Rightarrow> (\<exists>w'. open_tx st1 c = Some (Tx w' True))"
    by (auto simp: s split: sum.splits)
  show ?thesis
  proof (cases r)
    case (Inl e)
    with False assms(1) l s1 show ?thesis
      by (auto simp: settings_transaction_def pool_query_def fail_on_def exec_def
            split: option.splits)
  next
    case (Inr u)
    with t1 have t: "open_tx st1 c = Some (Tx (submitted kvs) False)" by simp
    from Inr False assms(1) l s1 t show ?thesis
      by (auto simp: settings_transaction_def pool_query_def fail_on_def exec_def)
  qed
qed


text \<open>
  The same request on one connection: with the failing second upsert the table is left
  as it was, and without failure both rows are replaced.
\<close>

lemma settings_update_one_connection:
  "fst (fst (serve accept_all one_connection_failing PostSettings signatory_request
              signatory_store)) = 500
   \<and> system_settings
        (snd (serve accept_all one_connection_failing PostSettings signatory_request
               signatory_store))
       = system_settings signatory_store
   \<and> fst (fst (serve accept_all one_connection PostSettings signatory_request
                signatory_store)) = 200
   \<and> system_settings
        (snd (serve accept_all one_connection PostSettings signatory_request signatory_store))
       = [(''off1_name'', JStr ''Maria Santos''), (''off1_pos'', JStr ''Director IV'')]"
  by code_simp

end
